theory Spec2Isabelle
  imports Main "HOL-Library.AList"
begin

section \<open>The plugin system of strax (\<open>strax/plugin.py\<close>)\<close>

text \<open>
  A plugin outputs an array and gets arrays from one or more other plugins. The
  development embeds the classifier \<open>dependencies_by_kind\<close>, the generator \<open>iter\<close>
  and the special plugins \<open>LoopPlugin\<close> and \<open>MergePlugin\<close> as HOL functions.

  Conventions of the embedding:
  \<^item> a Python \<open>dict\<close> whose iteration order the code observes is an association list
    with unique keys, in insertion order; assignment to a key is \<open>AList.update\<close>
    (an existing key keeps its place, a new key goes to the end);
  \<^item> the dict \<open>iters\<close>, which is only read and written by key, is a map;
  \<^item> every \<open>raise\<close> and every failing lookup is a value \<open>Inl e\<close>;
  \<^item> an attribute that \<open>hasattr\<close> probes is an \<open>option\<close>;
  \<^item> an iterator over chunks is the list of the chunks it has yet to give, and each
    name of \<open>iters\<close> owns its iterator.
\<close>

subsection \<open>Data\<close>

datatype error =
    ValueError string
  | KeyError string
  | IndexError
  | AttributeError string
  | NotImplementedError string
  | OverflowError string

datatype SavePreference = NEVER | IF_EXPLICIT | IF_MAIN | ALWAYS

text \<open>
  A structured dtype is the ordered list of its fields, each a name with a type
  descriptor; \<open>names\<close> is numpy's \<open>dtype.names\<close>.
\<close>

type_synonym dtype = "(string \<times> string) list"

definition names :: "dtype \<Rightarrow> string list" where
  "names dt = map fst dt"

record plugin =
  data_kind :: string
  depends_on :: "string list option"
  provides :: string
  dependency_kinds :: "string \<rightharpoonup> string"
  dependency_dtypes :: "string \<rightharpoonup> dtype"
  save_preference :: SavePreference
  multiprocess :: bool
  loop_over :: "string option"
  dtype :: "dtype option"

type_synonym deps_by_kind = "(string \<times> string list) list"

subsection \<open>\<open>StraxPlugin.dependencies_by_kind\<close>\<close>

text \<open>\<open>deps_by_kind.setdefault(k, [])\<close>: a missing key is added at the end.\<close>

definition setdefault :: "'k \<Rightarrow> 'v \<Rightarrow> ('k \<times> 'v) list \<Rightarrow> ('k \<times> 'v) list" where
  "setdefault k v al = (if k \<in> fst ` set al then al else al @ [(k, v)])"

text \<open>The list stored under a key that \<open>setdefault\<close> has made sure is there.\<close>

definition bucket :: "deps_by_kind \<Rightarrow> string \<Rightarrow> string list" where
  "bucket al k = (case map_of al k of None \<Rightarrow> [] | Some ds \<Rightarrow> ds)"

text \<open>
  The \<open>for d in self.depends_on\<close> loop; its state is \<open>(deps_by_kind, key_deps)\<close>.
  The conjunction short-circuits: without \<open>require_time\<close> the dtype is not looked up.
\<close>

fun classify_loop ::
  "plugin \<Rightarrow> bool \<Rightarrow> string list \<Rightarrow> deps_by_kind \<times> string list
     \<Rightarrow> error + deps_by_kind \<times> string list" where
  "classify_loop p require_time [] st = Inr st"
| "classify_loop p require_time (d # ds) (dbk, key_deps) =
     (case dependency_kinds p d of
        None \<Rightarrow> Inl (KeyError d)
      | Some k \<Rightarrow>
          (let dbk1 = setdefault k [] dbk in
           if require_time then
             (case dependency_dtypes p d of
                None \<Rightarrow> Inl (KeyError d)
              | Some dt \<Rightarrow>
                  if ''time'' \<in> set (names dt)
                  then classify_loop p require_time ds
                         (AList.update k (d # bucket dbk1 k) dbk1, key_deps @ [d])
                  else classify_loop p require_time ds
                         (AList.update k (bucket dbk1 k @ [d]) dbk1, key_deps))
           else classify_loop p require_time ds
                  (AList.update k (bucket dbk1 k @ [d]) dbk1, key_deps)))"

definition no_time_message :: "string \<Rightarrow> string" where
  "no_time_message k = ''No dependency of data kind '' @ k @ '' has time information!''"

text \<open>The \<open>for k, d in deps_by_kind.items()\<close> check of the front elements.\<close>

fun check_time :: "deps_by_kind \<Rightarrow> string list \<Rightarrow> error + unit" where
  "check_time [] key_deps = Inr ()"
| "check_time ((k, d) # rest) key_deps =
     (case d of
        [] \<Rightarrow> Inl IndexError
      | d0 # _ \<Rightarrow>
          if d0 \<in> set key_deps then check_time rest key_deps
          else Inl (ValueError (no_time_message k)))"

definition dependencies_by_kind :: "plugin \<Rightarrow> bool \<Rightarrow> error + deps_by_kind" where
  "dependencies_by_kind p require_time =
     (case depends_on p of
        None \<Rightarrow> Inl (AttributeError ''depends_on'')
      | Some ds \<Rightarrow>
          (case classify_loop p require_time ds ([], []) of
             Inl e \<Rightarrow> Inl e
           | Inr (dbk, key_deps) \<Rightarrow>
               if require_time then
                 (case check_time dbk key_deps of
                    Inl e \<Rightarrow> Inl e
                  | Inr _ \<Rightarrow> Inr dbk)
               else Inr dbk))"

subsection \<open>\<open>StraxPlugin.iter\<close>\<close>

text \<open>
  The chunk-array collaborators \<open>strax.chunk_arrays\<close> (imported as \<open>ca\<close>) are
  parameters of the model: \<open>fixed_length_chunks\<close> rechunks one iterator,
  \<open>sync_iters\<close> takes a synchronisation function and a dict of iterators and returns
  a dict of iterators. The two synchronisation functions the code passes are
  \<open>partial(ca.same_stop, func=strax.endtime)\<close> and \<open>ca.same_length\<close>.
\<close>

datatype sync_fn = Same_stop_endtime | Same_length

type_synonym 'c iters = "string \<rightharpoonup> 'c list"

record 'c chunk_arrays =
  fixed_length_chunks :: "'c list \<Rightarrow> int \<Rightarrow> 'c list"
  sync_iters :: "sync_fn \<Rightarrow> 'c iters \<Rightarrow> 'c iters"

type_synonym 'c kwargs = "(string \<times> 'c) list"

text \<open>
  An executor is its \<open>submit\<close> method: it takes the function and its keyword
  arguments and returns a handle. What \<open>iter\<close> yields is a result of \<open>compute\<close>
  or such a handle.
\<close>

type_synonym ('c, 'r, 'h) executor = "('c kwargs \<Rightarrow> error + 'r) \<Rightarrow> 'c kwargs \<Rightarrow> 'h"

datatype ('r, 'h) yielded = Result 'r | Handle 'h

text \<open>
  The additional flow control: the loop over \<open>deps_by_kind.items()\<close> breaks after
  its first round, so only the first kind is touched.
\<close>

definition flow_control ::
  "'c chunk_arrays \<Rightarrow> deps_by_kind \<Rightarrow> 'c iters \<Rightarrow> int option \<Rightarrow> error + 'c iters" where
  "flow_control ca dbk iters n_per_iter =
     (case n_per_iter of
        None \<Rightarrow> Inr iters
      | Some n \<Rightarrow>
          (case dbk of
             [] \<Rightarrow> Inr iters
           | (kind, deps) # _ \<Rightarrow>
               (case deps of
                  [] \<Rightarrow> Inl IndexError
                | d # _ \<Rightarrow>
                    (case iters d of
                       None \<Rightarrow> Inl (KeyError d)
                     | Some it \<Rightarrow> Inr (iters(d \<mapsto> fixed_length_chunks ca it n))))))"

text \<open>\<open>{d[0]: iters[d[0]] for d in deps_by_kind.values()}\<close>\<close>

fun time_iters :: "'c iters \<Rightarrow> deps_by_kind \<Rightarrow> 'c iters \<Rightarrow> error + 'c iters" where
  "time_iters iters [] acc = Inr acc"
| "time_iters iters ((k, deps) # rest) acc =
     (case deps of
        [] \<Rightarrow> Inl IndexError
      | d # _ \<Rightarrow>
          (case iters d of
             None \<Rightarrow> Inl (KeyError d)
           | Some it \<Rightarrow> time_iters iters rest (acc(d \<mapsto> it))))"

definition sync_kinds :: "'c chunk_arrays \<Rightarrow> deps_by_kind \<Rightarrow> 'c iters \<Rightarrow> error + 'c iters" where
  "sync_kinds ca dbk iters =
     (if length dbk > 1 then
        (case time_iters iters dbk Map.empty of
           Inl e \<Rightarrow> Inl e
         | Inr sel \<Rightarrow> Inr (iters ++ sync_iters ca Same_stop_endtime sel))
      else Inr iters)"

text \<open>\<open>{d: iters[d] for d in deps}\<close>\<close>

fun select_iters :: "'c iters \<Rightarrow> string list \<Rightarrow> 'c iters \<Rightarrow> error + 'c iters" where
  "select_iters iters [] acc = Inr acc"
| "select_iters iters (d # ds) acc =
     (case iters d of
        None \<Rightarrow> Inl (KeyError d)
      | Some it \<Rightarrow> select_iters iters ds (acc(d \<mapsto> it)))"

text \<open>
  The loop over the kinds that synchronises the lengths. \<open>iters\<close> is updated in
  place, kind after kind: when the dict of a later kind cannot be built, the
  exception leaves \<open>iters\<close> with the updates made so far, and the model returns them
  with the error.
\<close>

fun sync_lengths ::
  "'c chunk_arrays \<Rightarrow> deps_by_kind \<Rightarrow> 'c iters \<Rightarrow> error \<times> 'c iters + 'c iters" where
  "sync_lengths ca [] iters = Inr iters"
| "sync_lengths ca ((k, deps) # rest) iters =
     (if length deps > 1 then
        (case select_iters iters deps Map.empty of
           Inl e \<Rightarrow> Inl (e, iters)
         | Inr sel \<Rightarrow> sync_lengths ca rest (iters ++ sync_iters ca Same_length sel))
      else sync_lengths ca rest iters)"

text \<open>
  Everything \<open>iter\<close> does before its \<open>while True\<close> loop. The caller's dict \<open>iters\<close>
  is changed in place by each step, so an exception of a later step finds the changes
  of the earlier ones made: the error comes with \<open>iters\<close> as it stands when it is
  raised. (A failing lookup is raised before the assignment or the \<open>update\<close> it
  belongs to.)
\<close>

definition iter_setup ::
  "'c chunk_arrays \<Rightarrow> plugin \<Rightarrow> 'c iters \<Rightarrow> int option \<Rightarrow> error \<times> 'c iters + 'c iters" where
  "iter_setup ca p iters n_per_iter =
     (case dependencies_by_kind p True of
        Inl e \<Rightarrow> Inl (e, iters)
      | Inr dbk \<Rightarrow>
          (case flow_control ca dbk iters n_per_iter of
             Inl e \<Rightarrow> Inl (e, iters)
           | Inr iters1 \<Rightarrow>
               (case sync_kinds ca dbk iters1 of
                  Inl e \<Rightarrow> Inl (e, iters1)
                | Inr iters2 \<Rightarrow> sync_lengths ca dbk iters2)))"

text \<open>
  \<open>{d: next(iters[d]) for d in self.depends_on}\<close>: the chunks are drawn in the
  order of \<open>depends_on\<close>, each draw advances its iterator, and the first exhausted
  iterator ends the comprehension with \<open>StopIteration\<close>; the chunks drawn before it
  in that round are gone.
\<close>

datatype 'a pulled = StopIteration | Raised error | Batch 'a

fun pull_batch :: "string list \<Rightarrow> 'c iters \<Rightarrow> 'c kwargs \<Rightarrow> 'c iters \<times> 'c kwargs pulled" where
  "pull_batch [] its kw = (its, Batch kw)"
| "pull_batch (d # ds) its kw =
     (case its d of
        None \<Rightarrow> (its, Raised (KeyError d))
      | Some [] \<Rightarrow> (its, StopIteration)
      | Some (c # cs) \<Rightarrow> pull_batch ds (its(d \<mapsto> cs)) (AList.update d c kw))"

text \<open>
  The \<open>while True\<close> loop of the generator, drained by its consumer. The result is
  what was yielded, in order, the exception that ended the generator (\<open>None\<close> for a
  plain \<open>return\<close>), and the iterators as they are left. An exception of \<open>compute\<close>
  ends the generator; one of a submitted \<open>compute\<close> stays with its handle. A loop that
  never ends (a plugin without dependencies never meets \<open>StopIteration\<close>) has no
  result: the value is \<open>None\<close>.
\<close>

partial_function (option) iter_loop ::
  "plugin \<Rightarrow> ('c kwargs \<Rightarrow> error + 'r) \<Rightarrow> ('c, 'r, 'h) executor option \<Rightarrow> 'c iters
     \<Rightarrow> ('r, 'h) yielded list
     \<Rightarrow> (('r, 'h) yielded list \<times> error option \<times> 'c iters) option" where
  "iter_loop p compute executor its outs =
     (case depends_on p of
        None \<Rightarrow> Some (outs, Some (AttributeError ''depends_on''), its)
      | Some ds \<Rightarrow>
          (case pull_batch ds its [] of
             (its', StopIteration) \<Rightarrow> Some (outs, None, its')
           | (its', Raised e) \<Rightarrow> Some (outs, Some e, its')
           | (its', Batch compute_kwargs) \<Rightarrow>
               if multiprocess p \<and> executor \<noteq> None
               then iter_loop p compute executor its'
                      (outs @ [Handle ((the executor) compute compute_kwargs)])
               else
                 (case compute compute_kwargs of
                    Inl e \<Rightarrow> Some (outs, Some e, its')
                  | Inr r \<Rightarrow> iter_loop p compute executor its' (outs @ [Result r]))))"

declare iter_loop.simps [code]

text \<open>
  \<open>iter\<close> is a generator function: its body, the classification included, runs when
  the consumer asks for the first item. The model is the generator drained to its end;
  when the preparation raises, nothing was yielded and \<open>iters\<close> is left as the
  preparation had changed it by then.
\<close>

definition iter ::
  "'c chunk_arrays \<Rightarrow> plugin \<Rightarrow> ('c kwargs \<Rightarrow> error + 'r) \<Rightarrow> 'c iters \<Rightarrow> int option
     \<Rightarrow> ('c, 'r, 'h) executor option
     \<Rightarrow> (('r, 'h) yielded list \<times> error option \<times> 'c iters) option" where
  "iter ca p compute iters n_per_iter executor =
     (case iter_setup ca p iters n_per_iter of
        Inl (e, its) \<Rightarrow> Some ([], Some e, its)
      | Inr its \<Rightarrow> iter_loop p compute executor its [])"

subsection \<open>\<open>LoopPlugin\<close>\<close>

definition LoopPlugin_init :: "plugin \<Rightarrow> error + plugin" where
  "LoopPlugin_init p =
     (case depends_on p of
        None \<Rightarrow> Inl (ValueError ''depends_on is mandatory for LoopPlugin'')
      | Some _ \<Rightarrow> Inr p)"

text \<open>
  The collaborators \<open>strax.merge_arrs\<close> and \<open>strax.split_by_containment\<close> are
  parameters. An array is the list of its rows; \<open>split_by_containment\<close> returns a
  list of arrays, one for each row of the base.
\<close>

record 'a strax_lib =
  merge_arrs :: "'a list list \<Rightarrow> 'a list"
  split_by_containment :: "'a list \<Rightarrow> 'a list \<Rightarrow> 'a list list"

text \<open>The data kind to loop over: that of the first dependency, if not otherwise specified.\<close>

definition loop_kind :: "plugin \<Rightarrow> error + string" where
  "loop_kind p =
     (case loop_over p of
        Some k \<Rightarrow> Inr k
      | None \<Rightarrow>
          (case depends_on p of
             None \<Rightarrow> Inl (AttributeError ''depends_on'')
           | Some [] \<Rightarrow> Inl IndexError
           | Some (d # _) \<Rightarrow>
               (case dependency_kinds p d of
                  None \<Rightarrow> Inl (KeyError d)
                | Some k \<Rightarrow> Inr k)))"

text \<open>\<open>[kwargs[d] for d in deps]\<close>\<close>

fun lookup_all :: "'v kwargs \<Rightarrow> string list \<Rightarrow> error + 'v list" where
  "lookup_all kw [] = Inr []"
| "lookup_all kw (d # ds) =
     (case map_of kw d of
        None \<Rightarrow> Inl (KeyError d)
      | Some a \<Rightarrow>
          (case lookup_all kw ds of
             Inl e \<Rightarrow> Inl e
           | Inr as \<Rightarrow> Inr (a # as)))"

text \<open>\<open>{k: strax.merge_arrs([kwargs[d] for d in deps]) for k, deps in deps_by_kind.items()}\<close>\<close>

fun merge_kinds ::
  "'a strax_lib \<Rightarrow> 'a list kwargs \<Rightarrow> deps_by_kind \<Rightarrow> error + (string \<times> 'a list) list" where
  "merge_kinds lib kw [] = Inr []"
| "merge_kinds lib kw ((k, deps) # rest) =
     (case lookup_all kw deps of
        Inl e \<Rightarrow> Inl e
      | Inr arrs \<Rightarrow>
          (case merge_kinds lib kw rest of
             Inl e \<Rightarrow> Inl e
           | Inr things \<Rightarrow> Inr ((k, merge_arrs lib arrs) # things)))"

text \<open>
  The first half of \<open>LoopPlugin.compute\<close>: the base array, and for every other kind
  its things split by containment in the base. (The entry of the loop kind itself
  stays an array in \<open>things_by_kind\<close>; the loop below reads the other entries only.)
\<close>

definition loop_inputs ::
  "'a strax_lib \<Rightarrow> plugin \<Rightarrow> 'a list kwargs
     \<Rightarrow> error + 'a list \<times> (string \<times> 'a list list) list" where
  "loop_inputs lib p kw =
     (case loop_kind p of
        Inl e \<Rightarrow> Inl e
      | Inr lo \<Rightarrow>
          (case dependencies_by_kind p True of
             Inl e \<Rightarrow> Inl e
           | Inr dbk \<Rightarrow>
               (case merge_kinds lib kw dbk of
                  Inl e \<Rightarrow> Inl e
                | Inr things_by_kind \<Rightarrow>
                    (case map_of things_by_kind lo of
                       None \<Rightarrow> Inl (KeyError lo)
                     | Some base \<Rightarrow>
                         Inr (base,
                              map (\<lambda>(k, things). (k, split_by_containment lib things base))
                                (filter (\<lambda>(k, things). k \<noteq> lo) things_by_kind))))))"

text \<open>\<open>{k: things_by_kind[k][i] for k in deps_by_kind if k != loop_over}\<close>\<close>

fun row_kwargs :: "(string \<times> 'a list list) list \<Rightarrow> nat \<Rightarrow> error + 'a list kwargs" where
  "row_kwargs [] i = Inr []"
| "row_kwargs ((k, parts) # rest) i =
     (if i < length parts then
        (case row_kwargs rest i of
           Inl e \<Rightarrow> Inl e
         | Inr kw \<Rightarrow> Inr ((k, parts ! i) # kw))
      else Inl IndexError)"

text \<open>
  A row of the output array is the list of its fields with their values, in the
  order of the dtype; \<open>np.zeros\<close> fills every field with the zero of its type.

  An assignment \<open>results[i][k] = v\<close> is numpy's: a name that is not a field of the
  dtype raises; otherwise numpy converts \<open>v\<close> to the type of the field, which may
  change the value (a float of 32 bits rounds) or raise (an integer too wide for the
  field), and stores what the conversion gives. The conversion is numpy's own and is
  a parameter \<open>convert\<close>, from the type of the field and the value to the stored value
  or the error.
\<close>

type_synonym 'v row = "(string \<times> 'v) list"

type_synonym 'v convert = "string \<Rightarrow> 'v \<Rightarrow> error + 'v"

definition zero_row :: "dtype \<Rightarrow> ('v::zero) row" where
  "zero_row dt = map (\<lambda>(n, t). (n, 0)) dt"

definition set_field :: "'v convert \<Rightarrow> dtype \<Rightarrow> string \<Rightarrow> 'v \<Rightarrow> 'v row \<Rightarrow> error + 'v row" where
  "set_field convert dt k v row =
     (case map_of dt k of
        None \<Rightarrow> Inl (ValueError (''no field of name '' @ k))
      | Some t \<Rightarrow>
          (case convert t v of
             Inl e \<Rightarrow> Inl e
           | Inr v' \<Rightarrow> Inr (AList.update k v' row)))"

text \<open>\<open>for k, v in r.items(): results[i][k] = v\<close>\<close>

fun write_fields ::
  "'v convert \<Rightarrow> dtype \<Rightarrow> (string \<times> 'v) list \<Rightarrow> 'v row \<Rightarrow> error + 'v row" where
  "write_fields convert dt [] row = Inr row"
| "write_fields convert dt ((k, v) # r) row =
     (case set_field convert dt k v row of
        Inl e \<Rightarrow> Inl e
      | Inr row' \<Rightarrow> write_fields convert dt r row')"

text \<open>\<open>for i in range(len(base))\<close>, over the indices still to do.\<close>

fun loop_rows ::
  "'v convert \<Rightarrow> dtype \<Rightarrow> ('a \<Rightarrow> 'a list kwargs \<Rightarrow> error + (string \<times> 'v) list) \<Rightarrow> 'a list
     \<Rightarrow> (string \<times> 'a list list) list \<Rightarrow> nat list \<Rightarrow> 'v row list \<Rightarrow> error + 'v row list" where
  "loop_rows convert dt compute_loop base things [] results = Inr results"
| "loop_rows convert dt compute_loop base things (i # is) results =
     (case row_kwargs things i of
        Inl e \<Rightarrow> Inl e
      | Inr kw \<Rightarrow>
          (case compute_loop (base ! i) kw of
             Inl e \<Rightarrow> Inl e
           | Inr r \<Rightarrow>
               (case write_fields convert dt r (results ! i) of
                  Inl e \<Rightarrow> Inl e
                | Inr row \<Rightarrow>
                    loop_rows convert dt compute_loop base things is (results[i := row]))))"

definition LoopPlugin_compute ::
  "'a strax_lib \<Rightarrow> 'v convert \<Rightarrow> plugin
     \<Rightarrow> ('a \<Rightarrow> 'a list kwargs \<Rightarrow> error + (string \<times> 'v) list)
     \<Rightarrow> 'a list kwargs \<Rightarrow> error + ('v::zero) row list" where
  "LoopPlugin_compute lib convert p compute_loop kw =
     (case loop_inputs lib p kw of
        Inl e \<Rightarrow> Inl e
      | Inr (base, things) \<Rightarrow>
          (case dtype p of
             None \<Rightarrow> Inl (AttributeError ''dtype'')
           | Some dt \<Rightarrow>
               loop_rows convert dt compute_loop base things [0..<length base]
                 (replicate (length base) (zero_row dt))))"

subsection \<open>\<open>MergePlugin\<close>\<close>

definition MergePlugin_init :: "plugin \<Rightarrow> error + plugin" where
  "MergePlugin_init p =
     (case depends_on p of
        None \<Rightarrow> Inl (ValueError ''depends_on is mandatory for MergePlugin'')
      | Some _ \<Rightarrow> Inr p)"

text \<open>
  \<open>str(deps_by_kind)\<close> prints a dict of lists of \<open>str\<close> with the \<open>repr\<close> of every
  \<open>str\<close>. Python's \<open>repr\<close> of a \<open>str\<close> of ASCII characters: the quote is the double
  quote when the text has a single quote and no double quote, and the single quote
  otherwise; a backslash and the chosen quote get a backslash in front; tab, newline
  and carriage return are written \<open>\t\<close>, \<open>\n\<close>, \<open>\r\<close>; any other control character
  is written \<open>\xhh\<close>; every other character stands for itself. (Beyond ASCII Python
  decides by a table of printable code points; the names here are ASCII.)
\<close>

definition ascii :: "string \<Rightarrow> bool" where
  "ascii s \<longleftrightarrow> (\<forall>c \<in> set s. (of_char c :: nat) < 128)"

definition py_quote :: "string \<Rightarrow> char" where
  "py_quote s = (if CHR 0x27 \<in> set s \<and> CHR 0x22 \<notin> set s then CHR 0x22 else CHR 0x27)"

definition hex_digit :: "nat \<Rightarrow> char" where
  "hex_digit n = ''0123456789abcdef'' ! n"

definition py_escape :: "char \<Rightarrow> char \<Rightarrow> string" where
  "py_escape q c =
     (if c = q \<or> c = CHR 0x5C then [CHR 0x5C, c]
      else if c = CHR 0x09 then [CHR 0x5C, CHR ''t'']
      else if c = CHR 0x0A then [CHR 0x5C, CHR ''n'']
      else if c = CHR 0x0D then [CHR 0x5C, CHR ''r'']
      else if (of_char c :: nat) < 32 \<or> c = CHR 0x7F
      then [CHR 0x5C, CHR ''x'', hex_digit (of_char c div 16), hex_digit (of_char c mod 16)]
      else [c])"

definition py_repr :: "string \<Rightarrow> string" where
  "py_repr s = [py_quote s] @ concat (map (py_escape (py_quote s)) s) @ [py_quote s]"

fun join :: "string \<Rightarrow> string list \<Rightarrow> string" where
  "join sep [] = []"
| "join sep [x] = x"
| "join sep (x # y # ys) = x @ sep @ join sep (y # ys)"

definition py_str_list :: "string list \<Rightarrow> string" where
  "py_str_list xs = ''['' @ join '', '' (map py_repr xs) @ '']''"

definition py_str_dict :: "deps_by_kind \<Rightarrow> string" where
  "py_str_dict dbk =
     ''{'' @ join '', '' (map (\<lambda>(k, deps). py_repr k @ '': '' @ py_str_list deps) dbk) @ ''}''"

definition multiple_kinds_message :: "deps_by_kind \<Rightarrow> string" where
  "multiple_kinds_message dbk =
     ''MergePlugins can only merge data of the same kind, but got multiple kinds: '' @
     py_str_dict dbk"

text \<open>\<open>self.dependency_dtypes[d] for d in self.depends_on\<close>\<close>

fun lookup_dtypes :: "plugin \<Rightarrow> string list \<Rightarrow> error + dtype list" where
  "lookup_dtypes p [] = Inr []"
| "lookup_dtypes p (d # ds) =
     (case dependency_dtypes p d of
        None \<Rightarrow> Inl (KeyError d)
      | Some dt \<Rightarrow>
          (case lookup_dtypes p ds of
             Inl e \<Rightarrow> Inl e
           | Inr dts \<Rightarrow> Inr (dt # dts)))"

text \<open>
  \<open>strax.unpack_dtype\<close> is a parameter: it gives the list of field descriptions a
  dtype is made of. \<open>sum(..., [])\<close> adds the lists up from the left.
\<close>

definition MergePlugin_infer_dtype :: "(dtype \<Rightarrow> 'f list) \<Rightarrow> plugin \<Rightarrow> error + 'f list" where
  "MergePlugin_infer_dtype unpack_dtype p =
     (case dependencies_by_kind p True of
        Inl e \<Rightarrow> Inl e
      | Inr dbk \<Rightarrow>
          if length dbk \<noteq> 1 then Inl (ValueError (multiple_kinds_message dbk))
          else
            (case depends_on p of
               None \<Rightarrow> Inl (AttributeError ''depends_on'')
             | Some ds \<Rightarrow>
                 (case lookup_dtypes p ds of
                    Inl e \<Rightarrow> Inl e
                  | Inr dts \<Rightarrow> Inr (foldl (@) [] (map unpack_dtype dts)))))"

text \<open>\<open>MergePlugin.compute\<close>: \<open>strax.merge_arrs(list(kwargs.values()))\<close>\<close>

definition MergePlugin_compute :: "'a strax_lib \<Rightarrow> 'a list kwargs \<Rightarrow> error + 'a list" where
  "MergePlugin_compute lib kw = Inr (merge_arrs lib (map snd kw))"

subsection \<open>Notions the statements are written in\<close>

text \<open>
  A plugin is declared with the dependencies \<open>ds\<close> when \<open>depends_on\<close> is \<open>ds\<close> and
  every one of them has its entry in \<open>dependency_kinds\<close> and \<open>dependency_dtypes\<close>.
\<close>

definition declared :: "plugin \<Rightarrow> string list \<Rightarrow> bool" where
  "declared p ds \<longleftrightarrow>
     depends_on p = Some ds \<and>
     (\<forall>d \<in> set ds. dependency_kinds p d \<noteq> None \<and> dependency_dtypes p d \<noteq> None)"

definition has_time :: "plugin \<Rightarrow> string \<Rightarrow> bool" where
  "has_time p d =
     (case dependency_dtypes p d of
        None \<Rightarrow> False
      | Some dt \<Rightarrow> ''time'' \<in> set (names dt))"

text \<open>The dependencies of one kind, in the order of their declaration.\<close>

definition deps_of_kind :: "plugin \<Rightarrow> string list \<Rightarrow> string \<Rightarrow> string list" where
  "deps_of_kind p ds k = filter (\<lambda>d. dependency_kinds p d = Some k) ds"

text \<open>The kinds of the dependencies, each once, in the order of their first declaration.\<close>

definition kinds :: "plugin \<Rightarrow> string list \<Rightarrow> string list" where
  "kinds p ds = rev (remdups (rev (List.map_filter (dependency_kinds p) ds)))"

definition lacks_time :: "plugin \<Rightarrow> string list \<Rightarrow> string \<Rightarrow> bool" where
  "lacks_time p ds k \<longleftrightarrow> \<not> (\<exists>d \<in> set (deps_of_kind p ds k). has_time p d)"

text \<open>
  The dependencies of a kind with those that have a time field first, the last
  declared of them at the front, and the others behind in the order of declaration.
\<close>

definition time_first :: "plugin \<Rightarrow> string list \<Rightarrow> string \<Rightarrow> string list" where
  "time_first p ds k =
     rev (filter (has_time p) (deps_of_kind p ds k)) @
     filter (\<lambda>d. \<not> has_time p d) (deps_of_kind p ds k)"

definition groups :: "plugin \<Rightarrow> string list \<Rightarrow> deps_by_kind" where
  "groups p ds = map (\<lambda>k. (k, time_first p ds k)) (kinds p ds)"

text \<open>
  The chunks an iterator of \<open>iters\<close> has yet to give; the number of rounds in which
  every dependency still has a chunk; and the batch of round \<open>i\<close>, the \<open>i\<close>-th chunk
  of every dependency under its name, in the order of \<open>depends_on\<close>.
\<close>

definition chunks_of :: "'c iters \<Rightarrow> string \<Rightarrow> 'c list" where
  "chunks_of its d = (case its d of None \<Rightarrow> [] | Some cs \<Rightarrow> cs)"

definition n_batches :: "string list \<Rightarrow> 'c iters \<Rightarrow> nat" where
  "n_batches ds its = Min (set (map (\<lambda>d. length (chunks_of its d)) ds))"

definition batch :: "string list \<Rightarrow> 'c iters \<Rightarrow> nat \<Rightarrow> 'c kwargs" where
  "batch ds its i = map (\<lambda>d. (d, chunks_of its d ! i)) ds"

text \<open>
  What a round yields for a batch on which \<open>compute\<close> does not raise: the handle of
  the submission, or the result of \<open>compute\<close>.
\<close>

definition yield_of ::
  "plugin \<Rightarrow> ('c kwargs \<Rightarrow> error + 'r) \<Rightarrow> ('c, 'r, 'h) executor option \<Rightarrow> 'c kwargs
     \<Rightarrow> ('r, 'h) yielded" where
  "yield_of p compute executor kw =
     (if multiprocess p \<and> executor \<noteq> None then Handle ((the executor) compute kw)
      else Result (projr (compute kw)))"

text \<open>
  The keyword arguments of the callback for the base row \<open>i\<close>, and the value that
  a field \<open>f\<close> of the dtype holds once a returned mapping is written: what the
  conversion to the type of \<open>f\<close> makes of the value the mapping holds for \<open>f\<close> (the
  last one, if the list had two), and zero when the mapping does not name \<open>f\<close>.
\<close>

definition row_args :: "(string \<times> 'a list list) list \<Rightarrow> nat \<Rightarrow> 'a list kwargs" where
  "row_args things i = map (\<lambda>(k, parts). (k, parts ! i)) things"

definition field_value ::
  "'v convert \<Rightarrow> dtype \<Rightarrow> (string \<times> 'v) list \<Rightarrow> string \<Rightarrow> 'v::zero" where
  "field_value convert dt r f =
     (case map_of (rev r) f of
        None \<Rightarrow> 0
      | Some v \<Rightarrow>
          (case map_of dt f of
             None \<Rightarrow> 0
           | Some t \<Rightarrow> (case convert t v of Inl e \<Rightarrow> 0 | Inr v' \<Rightarrow> v')))"

text \<open>
  A plain name: printable ASCII characters other than the single quote and the
  backslash. The \<open>repr\<close> of a plain name is the name between single quotes.
\<close>

definition plain :: "string \<Rightarrow> bool" where
  "plain s \<longleftrightarrow>
     (\<forall>c \<in> set s. 32 \<le> (of_char c :: nat) \<and> (of_char c :: nat) < 127 \<and>
                   c \<noteq> CHR 0x27 \<and> c \<noteq> CHR 0x5C)"

definition quoted :: "string \<Rightarrow> string" where
  "quoted s = [CHR 0x27] @ s @ [CHR 0x27]"

text \<open>A plugin for the examples: only its dependencies vary.\<close>

definition example_plugin ::
  "string list option \<Rightarrow> (string \<times> string) list \<Rightarrow> (string \<times> dtype) list \<Rightarrow> plugin" where
  "example_plugin ds ks dts =
     \<lparr> data_kind = ''example'', depends_on = ds, provides = ''example'',
       dependency_kinds = map_of ks, dependency_dtypes = map_of dts,
       save_preference = IF_MAIN, multiprocess = False, loop_over = None, dtype = None \<rparr>"

text \<open>Collaborators for the examples that hand every iterator back as it is.\<close>

definition example_ca :: "nat chunk_arrays" where
  "example_ca = \<lparr> fixed_length_chunks = (\<lambda>it n. it), sync_iters = (\<lambda>f its. its) \<rparr>"

definition example_array_ca :: "(nat \<times> nat) list chunk_arrays" where
  "example_array_ca = \<lparr> fixed_length_chunks = (\<lambda>it n. it), sync_iters = (\<lambda>f its. its) \<rparr>"

text \<open>
  A collaborator for an example that does rechunk: the rows of all chunks, cut into
  chunks of \<open>n\<close> rows, the last one possibly shorter.
\<close>

function rechunk :: "nat \<Rightarrow> 'a list \<Rightarrow> 'a list list" where
  "rechunk n xs = (if n = 0 \<or> xs = [] then [] else take n xs # rechunk n (drop n xs))"
  by pat_completeness auto
termination
  by (relation "measure (\<lambda>(n, xs). length xs)") auto

declare rechunk.simps [simp del]

definition example_rechunk_ca :: "nat list chunk_arrays" where
  "example_rechunk_ca =
     \<lparr> fixed_length_chunks = (\<lambda>it n. rechunk (nat n) (concat it)),
       sync_iters = (\<lambda>f its. its) \<rparr>"

definition example_compute :: "nat kwargs \<Rightarrow> error + nat kwargs" where
  "example_compute kw = Inr kw"

definition no_executor :: "(nat, nat kwargs, unit) executor option" where
  "no_executor = None"

text \<open>An executor for the examples whose handle is what the function returns.\<close>

definition example_executor :: "(nat, nat kwargs, error + nat kwargs) executor" where
  "example_executor f kw = f kw"

text \<open>
  Collaborators, a conversion, a callback and a loop plugin for an example: rows are
  pairs of a time and an end time, the merged rows are those of the first array, the
  split keeps for each base row the things within it, the conversion refuses an
  integer that does not fit a field of 32 bits, and the callback counts the peaks of
  its base row.
\<close>

definition example_lib :: "(nat \<times> nat) strax_lib" where
  "example_lib =
     \<lparr> merge_arrs = (\<lambda>arrs. case arrs of [] \<Rightarrow> [] | a # _ \<Rightarrow> a),
       split_by_containment =
         (\<lambda>things base. map (\<lambda>b. filter (\<lambda>t. fst b \<le> fst t \<and> snd t \<le> snd b) things) base) \<rparr>"

definition example_convert :: "int convert" where
  "example_convert t v =
     (if t = ''i4'' \<and> \<not> (- 2147483648 \<le> v \<and> v < 2147483648)
      then Inl (OverflowError ''Python int too large to convert to C long'')
      else Inr v)"

definition count_peaks :: "nat \<times> nat \<Rightarrow> (nat \<times> nat) list kwargs \<Rightarrow> error + (string \<times> int) list" where
  "count_peaks base kw =
     Inr [(''n_peaks'', int (length (case map_of kw ''peaks'' of None \<Rightarrow> [] | Some ps \<Rightarrow> ps)))]"

definition example_loop_plugin :: plugin where
  "example_loop_plugin =
     (example_plugin (Some [''events'', ''peaks''])
        [(''events'', ''events''), (''peaks'', ''peaks'')]
        [(''events'', [(''time'', ''i8''), (''endtime'', ''i8'')]),
         (''peaks'', [(''time'', ''i8''), (''endtime'', ''i8'')])])
     \<lparr>dtype := Some [(''time'', ''i8''), (''n_peaks'', ''i4'')]\<rparr>"

section \<open>Properties\<close>

subsection \<open>The classifier\<close>

lemma classify_loop_append:
  "classify_loop p rt (xs @ ys) st =
     (case classify_loop p rt xs st of Inl e \<Rightarrow> Inl e | Inr st' \<Rightarrow> classify_loop p rt ys st')"
proof (induction xs arbitrary: st)
  case Nil
  show ?case by simp
next
  case (Cons d xs)
  obtain dbk key where st: "st = (dbk, key)" by (cases st)
  show ?case
    unfolding st using Cons.IH
    by (cases rt) (simp_all add: Let_def split: option.splits)
qed

lemma kinds_snoc:
  "dependency_kinds p d = Some k \<Longrightarrow>
   kinds p (ds @ [d]) = (if k \<in> set (kinds p ds) then kinds p ds else kinds p ds @ [k])"
  by (simp add: kinds_def map_filter_def)

lemma update_map_keys:
  "distinct ks \<Longrightarrow> k \<in> set ks \<Longrightarrow>
   AList.update k v (map (\<lambda>x. (x, f x)) ks) = map (\<lambda>x. (x, if x = k then v else f x)) ks"
  by (induction ks) auto

lemma map_of_map_keys:
  "map_of (map (\<lambda>x. (x, f x)) ks) k = (if k \<in> set ks then Some (f k) else None)"
  by (induction ks) auto

lemma distinct_kinds: "distinct (kinds p ds)"
  by (simp add: kinds_def)

lemma set_kinds: "set (kinds p ds) = {k. \<exists>d \<in> set ds. dependency_kinds p d = Some k}"
  by (force simp: kinds_def map_filter_def)

lemma deps_of_kind_empty: "k \<notin> set (kinds p ds) \<Longrightarrow> deps_of_kind p ds k = []"
  by (auto simp: set_kinds deps_of_kind_def filter_empty_conv)

lemma deps_of_kind_nonempty: "k \<in> set (kinds p ds) \<Longrightarrow> deps_of_kind p ds k \<noteq> []"
  by (auto simp: set_kinds deps_of_kind_def filter_empty_conv)

lemma time_first_snoc:
  "dependency_kinds p d = Some k \<Longrightarrow>
   time_first p (ds @ [d]) x =
     (if x = k then (if has_time p d then d # time_first p ds k else time_first p ds k @ [d])
      else time_first p ds x)"
  by (auto simp: time_first_def deps_of_kind_def)

lemma setdefault_groups:
  assumes "dependency_kinds p d = Some k"
  shows "setdefault k [] (groups p ds) = map (\<lambda>x. (x, time_first p ds x)) (kinds p (ds @ [d]))"
proof (cases "k \<in> set (kinds p ds)")
  case True
  then show ?thesis
    using assms by (simp add: setdefault_def groups_def kinds_snoc image_image)
next
  case False
  then have "time_first p ds k = []"
    by (simp add: time_first_def deps_of_kind_empty)
  with False show ?thesis
    using assms by (simp add: setdefault_def groups_def kinds_snoc image_image)
qed

lemma classify_step:
  assumes k: "dependency_kinds p d = Some k" and dt: "dependency_dtypes p d = Some dt"
  shows "classify_loop p True [d] (groups p ds, key) =
           Inr (groups p (ds @ [d]), key @ (if has_time p d then [d] else []))"
proof -
  let ?ks = "kinds p (ds @ [d])"
  let ?dbk1 = "map (\<lambda>x. (x, time_first p ds x)) ?ks"
  have mem: "k \<in> set ?ks" using k by (simp add: kinds_snoc)
  have dist: "distinct ?ks" by (rule distinct_kinds)
  have sd: "setdefault k [] (groups p ds) = ?dbk1" by (rule setdefault_groups [OF k])
  have b: "bucket ?dbk1 k = time_first p ds k"
    using mem by (simp add: bucket_def map_of_map_keys)
  have upd: "AList.update k v ?dbk1 =
      map (\<lambda>x. (x, if x = k then v else time_first p ds x)) ?ks" for v
    by (rule update_map_keys [OF dist mem])
  have g: "groups p (ds @ [d]) =
      map (\<lambda>x. (x, if x = k then (if has_time p d then d # time_first p ds k
                                  else time_first p ds k @ [d])
                   else time_first p ds x)) ?ks"
    by (simp add: groups_def time_first_snoc [OF k])
  show ?thesis
    using k dt by (simp add: sd b upd g has_time_def)
qed

lemma classify_loop_groups:
  assumes "\<forall>d \<in> set ds. dependency_kinds p d \<noteq> None \<and> dependency_dtypes p d \<noteq> None"
  shows "classify_loop p True ds ([], []) = Inr (groups p ds, filter (has_time p) ds)"
  using assms
proof (induction ds rule: rev_induct)
  case Nil
  show ?case by (simp add: groups_def kinds_def map_filter_def)
next
  case (snoc d ds)
  then obtain k dt where k: "dependency_kinds p d = Some k"
    and dt: "dependency_dtypes p d = Some dt" by auto
  from snoc have IH: "classify_loop p True ds ([], []) = Inr (groups p ds, filter (has_time p) ds)"
    by simp
  show ?case
    by (simp add: classify_loop_append IH classify_step [OF k dt] del: classify_loop.simps)
qed

lemma hd_time_first_has_time:
  assumes "k \<in> set (kinds p ds)"
  shows "time_first p ds k \<noteq> [] \<and>
         (hd (time_first p ds k) \<in> set (filter (has_time p) ds) \<longleftrightarrow> \<not> lacks_time p ds k)"
proof (cases "filter (has_time p) (deps_of_kind p ds k)")
  case Nil
  have ne: "deps_of_kind p ds k \<noteq> []" by (rule deps_of_kind_nonempty [OF assms])
  from Nil have all: "\<forall>d \<in> set (deps_of_kind p ds k). \<not> has_time p d"
    by (simp add: filter_empty_conv)
  then have tf: "time_first p ds k = deps_of_kind p ds k"
    by (simp add: time_first_def Nil)
  have "hd (deps_of_kind p ds k) \<in> set (deps_of_kind p ds k)" using ne by simp
  with all have "\<not> has_time p (hd (deps_of_kind p ds k))" by blast
  with all ne show ?thesis by (simp add: tf lacks_time_def)
next
  case (Cons t ts)
  let ?ts = "filter (has_time p) (deps_of_kind p ds k)"
  have ne: "?ts \<noteq> []" using Cons by simp
  have hd: "hd (time_first p ds k) = last ?ts"
    using ne by (simp add: time_first_def hd_append hd_rev)
  have "last ?ts \<in> set ?ts" using ne by (rule last_in_set)
  then have "has_time p (last ?ts) \<and> last ?ts \<in> set (deps_of_kind p ds k)" by simp
  then have "last ?ts \<in> set (filter (has_time p) ds) \<and> \<not> lacks_time p ds k"
    by (auto simp: deps_of_kind_def lacks_time_def)
  moreover have "time_first p ds k \<noteq> []" using ne by (simp add: time_first_def)
  ultimately show ?thesis by (simp add: hd)
qed

lemma check_time_groups:
  assumes "set ks \<subseteq> set (kinds p ds)"
  shows "check_time (map (\<lambda>k. (k, time_first p ds k)) ks) (filter (has_time p) ds) =
           (case List.find (lacks_time p ds) ks of
              None \<Rightarrow> Inr ()
            | Some k \<Rightarrow> Inl (ValueError (no_time_message k)))"
  using assms
proof (induction ks)
  case Nil
  show ?case by simp
next
  case (Cons k ks)
  then have k: "k \<in> set (kinds p ds)" by simp
  note h = hd_time_first_has_time [OF k]
  from h obtain d0 rest where tf: "time_first p ds k = d0 # rest"
    by (cases "time_first p ds k") auto
  with h have "d0 \<in> set (filter (has_time p) ds) \<longleftrightarrow> \<not> lacks_time p ds k" by simp
  with Cons show ?case by (simp add: tf)
qed

lemma dependencies_by_kind_time:
  assumes "declared p ds"
  shows "dependencies_by_kind p True =
           (case List.find (lacks_time p ds) (kinds p ds) of
              None \<Rightarrow> Inr (groups p ds)
            | Some k \<Rightarrow> Inl (ValueError (no_time_message k)))"
proof -
  from assms have d: "depends_on p = Some ds"
    and a: "\<forall>d \<in> set ds. dependency_kinds p d \<noteq> None \<and> dependency_dtypes p d \<noteq> None"
    by (simp_all add: declared_def)
  have c: "check_time (groups p ds) (filter (has_time p) ds) =
           (case List.find (lacks_time p ds) (kinds p ds) of
              None \<Rightarrow> Inr ()
            | Some k \<Rightarrow> Inl (ValueError (no_time_message k)))"
    unfolding groups_def by (rule check_time_groups) simp
  show ?thesis
    by (simp add: dependencies_by_kind_def d classify_loop_groups [OF a] c split: option.splits)
qed

lemma dependencies_by_kind_groups:
  assumes "declared p ds" and "\<forall>j \<in> set (kinds p ds). \<not> lacks_time p ds j"
  shows "dependencies_by_kind p True = Inr (groups p ds)"
proof -
  from assms(2) have "List.find (lacks_time p ds) (kinds p ds) = None"
    by (simp add: find_None_iff)
  then show ?thesis by (simp add: dependencies_by_kind_time [OF assms(1)])
qed

lemma map_of_groups:
  "map_of (groups p ds) k = (if k \<in> set (kinds p ds) then Some (time_first p ds k) else None)"
  by (simp add: groups_def map_of_map_keys)

lemmas example_defs = declared_def example_plugin_def kinds_def map_filter_def lacks_time_def
  deps_of_kind_def has_time_def names_def

text \<open>
  Claim C1, as amended. For every plugin, each of whose declared dependencies has a
  kind and a dtype, and whose dependencies include a kind \<open>k\<close> in which no dependency's
  dtype has a \<open>time\<close> field: \<open>dependencies_by_kind\<close> with \<open>require_time\<close> true fails
  with a \<open>ValueError\<close> whose message names the first kind without a time field, in the
  order in which the kinds are first declared (that is \<open>k\<close> itself when no kind before
  it lacks one); and \<open>iter\<close> ends with that error having yielded nothing and with
  every iterator as it was given, so before any chunk is pulled.
\<close>

theorem classify_fails_naming_first_kind_without_time:
  assumes "declared p ds" and "k \<in> set (kinds p ds)" and "lacks_time p ds k"
  shows "\<exists>k'. List.find (lacks_time p ds) (kinds p ds) = Some k' \<and>
           dependencies_by_kind p True = Inl (ValueError (no_time_message k')) \<and>
           iter ca p compute iters n_per_iter executor =
             Some ([], Some (ValueError (no_time_message k')), iters)"
proof -
  from assms(2,3) obtain k' where f: "List.find (lacks_time p ds) (kinds p ds) = Some k'"
    by (cases "List.find (lacks_time p ds) (kinds p ds)") (auto simp: find_None_iff)
  have "dependencies_by_kind p True = Inl (ValueError (no_time_message k'))"
    by (simp add: dependencies_by_kind_time [OF assms(1)] f)
  then show ?thesis
    using f by (simp add: iter_def iter_setup_def)
qed

text \<open>
  An instance: \<open>a\<close> of kind \<open>events\<close> has a time field, \<open>b\<close> of kind \<open>peaks\<close> has
  none; the error names \<open>peaks\<close> and the two iterators are untouched.
\<close>

theorem classify_fails_naming_first_kind_without_time_witness:
  "declared (example_plugin (Some [''a'', ''b''])
               [(''a'', ''events''), (''b'', ''peaks'')]
               [(''a'', [(''time'', ''i8'')]), (''b'', [(''x'', ''f4'')])]) [''a'', ''b''] \<and>
   ''peaks'' \<in> set (kinds (example_plugin (Some [''a'', ''b''])
               [(''a'', ''events''), (''b'', ''peaks'')]
               [(''a'', [(''time'', ''i8'')]), (''b'', [(''x'', ''f4'')])]) [''a'', ''b'']) \<and>
   lacks_time (example_plugin (Some [''a'', ''b''])
               [(''a'', ''events''), (''b'', ''peaks'')]
               [(''a'', [(''time'', ''i8'')]), (''b'', [(''x'', ''f4'')])]) [''a'', ''b''] ''peaks'' \<and>
   dependencies_by_kind (example_plugin (Some [''a'', ''b''])
               [(''a'', ''events''), (''b'', ''peaks'')]
               [(''a'', [(''time'', ''i8'')]), (''b'', [(''x'', ''f4'')])]) True =
     Inl (ValueError (no_time_message ''peaks'')) \<and>
   iter example_ca (example_plugin (Some [''a'', ''b''])
               [(''a'', ''events''), (''b'', ''peaks'')]
               [(''a'', [(''time'', ''i8'')]), (''b'', [(''x'', ''f4'')])])
        example_compute [''a'' \<mapsto> [1, 2], ''b'' \<mapsto> [3]] None no_executor =
     Some ([], Some (ValueError (no_time_message ''peaks'')), [''a'' \<mapsto> [1, 2], ''b'' \<mapsto> [3]])"
proof -
  let ?p = "example_plugin (Some [''a'', ''b''])
               [(''a'', ''events''), (''b'', ''peaks'')]
               [(''a'', [(''time'', ''i8'')]), (''b'', [(''x'', ''f4'')])]"
  have d: "declared ?p [''a'', ''b'']" by (simp add: example_defs)
  have k: "''peaks'' \<in> set (kinds ?p [''a'', ''b''])" by (simp add: example_defs)
  have l: "lacks_time ?p [''a'', ''b''] ''peaks''" by (simp add: example_defs)
  have f: "List.find (lacks_time ?p [''a'', ''b'']) (kinds ?p [''a'', ''b'']) = Some ''peaks''"
    by (simp add: example_defs)
  show ?thesis
    using classify_fails_naming_first_kind_without_time [OF d k l,
        of example_ca example_compute "[''a'' \<mapsto> [1, 2], ''b'' \<mapsto> [3]]" None no_executor]
      d k l f
    by simp
qed

text \<open>
  Claim C1 as it is written fails where two kinds lack a time field: with \<open>a\<close> of
  kind \<open>events\<close> and \<open>b\<close> of kind \<open>peaks\<close>, neither with a time field, the kind
  \<open>peaks\<close> has no dependency with a time field, and the message names \<open>events\<close>,
  not \<open>peaks\<close>: the check raises at the first kind it finds.
\<close>

theorem classify_names_only_first_kind_without_time_counterexample:
  "lacks_time (example_plugin (Some [''a'', ''b''])
               [(''a'', ''events''), (''b'', ''peaks'')]
               [(''a'', [(''x'', ''f4'')]), (''b'', [(''y'', ''f4'')])]) [''a'', ''b''] ''peaks'' \<and>
   dependencies_by_kind (example_plugin (Some [''a'', ''b''])
               [(''a'', ''events''), (''b'', ''peaks'')]
               [(''a'', [(''x'', ''f4'')]), (''b'', [(''y'', ''f4'')])]) True =
     Inl (ValueError ''No dependency of data kind events has time information!'') \<and>
   dependencies_by_kind (example_plugin (Some [''a'', ''b''])
               [(''a'', ''events''), (''b'', ''peaks'')]
               [(''a'', [(''x'', ''f4'')]), (''b'', [(''y'', ''f4'')])]) True \<noteq>
     Inl (ValueError (no_time_message ''peaks''))"
  by (simp add: example_defs dependencies_by_kind_def setdefault_def bucket_def
      no_time_message_def)

text \<open>
  Claim C2. For every dependency list in which every kind has a dependency with a
  time field (what \<open>require_time\<close> asks for) and the kind \<open>k\<close> has exactly one, \<open>t\<close>,
  wherever \<open>t\<close> stands in the declaration: the classifier returns, \<open>t\<close> is the first
  element of the list of \<open>k\<close>, and the other dependencies of \<open>k\<close> follow in the order of
  their declaration.
\<close>

theorem classify_single_time_dependency_first:
  assumes "declared p ds" and "\<forall>j \<in> set (kinds p ds). \<not> lacks_time p ds j"
    and "filter (has_time p) (deps_of_kind p ds k) = [t]"
  shows "\<exists>dbk. dependencies_by_kind p True = Inr dbk \<and>
           map_of dbk k = Some (t # filter (\<lambda>d. d \<noteq> t) (deps_of_kind p ds k))"
proof -
  let ?xs = "deps_of_kind p ds k"
  have ne: "?xs \<noteq> []" using assms(3) by auto
  then have k: "k \<in> set (kinds p ds)" using deps_of_kind_empty by blast
  have "\<forall>x \<in> set ?xs. (\<not> has_time p x) = (x \<noteq> t)"
  proof
    fix x assume x: "x \<in> set ?xs"
    have "has_time p x \<longleftrightarrow> x \<in> set (filter (has_time p) ?xs)" using x by simp
    then show "(\<not> has_time p x) = (x \<noteq> t)" by (simp add: assms(3))
  qed
  then have "filter (\<lambda>d. \<not> has_time p d) ?xs = filter (\<lambda>d. d \<noteq> t) ?xs"
    by (auto intro: filter_cong)
  then have "time_first p ds k = t # filter (\<lambda>d. d \<noteq> t) ?xs"
    by (simp add: time_first_def assms(3))
  then show ?thesis
    using k by (simp add: dependencies_by_kind_groups [OF assms(1,2)] map_of_groups)
qed

text \<open>
  An instance: of \<open>a\<close>, \<open>b\<close>, \<open>c\<close>, all of kind \<open>peaks\<close>, only \<open>b\<close> has a time field;
  the list of \<open>peaks\<close> is \<open>b\<close>, \<open>a\<close>, \<open>c\<close>.
\<close>

theorem classify_single_time_dependency_first_witness:
  "declared (example_plugin (Some [''a'', ''b'', ''c''])
      [(''a'', ''peaks''), (''b'', ''peaks''), (''c'', ''peaks'')]
      [(''a'', [(''x'', ''f4'')]), (''b'', [(''time'', ''i8'')]), (''c'', [(''y'', ''f4'')])])
      [''a'', ''b'', ''c''] \<and>
   dependencies_by_kind (example_plugin (Some [''a'', ''b'', ''c''])
      [(''a'', ''peaks''), (''b'', ''peaks''), (''c'', ''peaks'')]
      [(''a'', [(''x'', ''f4'')]), (''b'', [(''time'', ''i8'')]), (''c'', [(''y'', ''f4'')])]) True
     = Inr [(''peaks'', [''b'', ''a'', ''c''])]"
proof -
  let ?p = "example_plugin (Some [''a'', ''b'', ''c''])
      [(''a'', ''peaks''), (''b'', ''peaks''), (''c'', ''peaks'')]
      [(''a'', [(''x'', ''f4'')]), (''b'', [(''time'', ''i8'')]), (''c'', [(''y'', ''f4'')])]"
  let ?ds = "[''a'', ''b'', ''c'']"
  have d: "declared ?p ?ds" by (simp add: example_defs)
  have a: "\<forall>j \<in> set (kinds ?p ?ds). \<not> lacks_time ?p ?ds j" by (simp add: example_defs)
  have t: "filter (has_time ?p) (deps_of_kind ?p ?ds ''peaks'') = [''b'']"
    by (simp add: example_defs)
  have r: "dependencies_by_kind ?p True = Inr [(''peaks'', [''b'', ''a'', ''c''])]"
    by (simp add: example_defs dependencies_by_kind_def setdefault_def bucket_def)
  show ?thesis
    using classify_single_time_dependency_first [OF d a t] d r by simp
qed

text \<open>
  Claim C10. When the kind \<open>k\<close> has more than one dependency with a time field, and
  every kind has at least one: the classifier (with \<open>require_time\<close> true) returns
  without error, the list of \<open>k\<close> holds the dependencies with a time field in the reverse
  of their declaration order, then the others, and so its first element is the last
  declared dependency with a time field.
\<close>

theorem classify_last_time_dependency_first:
  assumes "declared p ds" and "\<forall>j \<in> set (kinds p ds). \<not> lacks_time p ds j"
    and "length (filter (has_time p) (deps_of_kind p ds k)) > 1"
  shows "\<exists>dbk deps. dependencies_by_kind p True = Inr dbk \<and> map_of dbk k = Some deps \<and>
           deps = rev (filter (has_time p) (deps_of_kind p ds k)) @
                  filter (\<lambda>d. \<not> has_time p d) (deps_of_kind p ds k) \<and>
           hd deps = last (filter (has_time p) (deps_of_kind p ds k))"
proof -
  let ?ts = "filter (has_time p) (deps_of_kind p ds k)"
  have ne: "?ts \<noteq> []" using assms(3) by auto
  then have "deps_of_kind p ds k \<noteq> []" by auto
  then have k: "k \<in> set (kinds p ds)" using deps_of_kind_empty by blast
  have "hd (time_first p ds k) = last ?ts"
    using ne by (simp add: time_first_def hd_append hd_rev)
  then show ?thesis
    using k by (simp add: dependencies_by_kind_groups [OF assms(1,2)] map_of_groups time_first_def)
qed

text \<open>
  An instance: of \<open>a\<close>, \<open>b\<close>, \<open>c\<close>, all of kind \<open>peaks\<close>, \<open>a\<close> and \<open>c\<close> have a time
  field; the list of \<open>peaks\<close> is \<open>c\<close>, \<open>a\<close>, \<open>b\<close>.
\<close>

theorem classify_last_time_dependency_first_witness:
  "declared (example_plugin (Some [''a'', ''b'', ''c''])
      [(''a'', ''peaks''), (''b'', ''peaks''), (''c'', ''peaks'')]
      [(''a'', [(''time'', ''i8'')]), (''b'', [(''x'', ''f4'')]), (''c'', [(''time'', ''i8'')])])
      [''a'', ''b'', ''c''] \<and>
   dependencies_by_kind (example_plugin (Some [''a'', ''b'', ''c''])
      [(''a'', ''peaks''), (''b'', ''peaks''), (''c'', ''peaks'')]
      [(''a'', [(''time'', ''i8'')]), (''b'', [(''x'', ''f4'')]), (''c'', [(''time'', ''i8'')])]) True
     = Inr [(''peaks'', [''c'', ''a'', ''b''])]"
proof -
  let ?p = "example_plugin (Some [''a'', ''b'', ''c''])
      [(''a'', ''peaks''), (''b'', ''peaks''), (''c'', ''peaks'')]
      [(''a'', [(''time'', ''i8'')]), (''b'', [(''x'', ''f4'')]), (''c'', [(''time'', ''i8'')])]"
  let ?ds = "[''a'', ''b'', ''c'']"
  have d: "declared ?p ?ds" by (simp add: example_defs)
  have a: "\<forall>j \<in> set (kinds ?p ?ds). \<not> lacks_time ?p ?ds j" by (simp add: example_defs)
  have t: "length (filter (has_time ?p) (deps_of_kind ?p ?ds ''peaks'')) > 1"
    by (simp add: example_defs)
  have r: "dependencies_by_kind ?p True = Inr [(''peaks'', [''c'', ''a'', ''b''])]"
    by (simp add: example_defs dependencies_by_kind_def setdefault_def bucket_def)
  show ?thesis
    using classify_last_time_dependency_first [OF d a t] d r by simp
qed

subsection \<open>The flow control of \<open>iter\<close>\<close>

lemma kinds_nonempty:
  assumes "declared p ds" and "ds \<noteq> []"
  shows "kinds p ds \<noteq> []"
proof -
  from assms obtain d where d: "d \<in> set ds" by (cases ds) auto
  with assms(1) obtain k where "dependency_kinds p d = Some k" by (auto simp: declared_def)
  with d have "k \<in> set (kinds p ds)" by (auto simp: set_kinds)
  then show ?thesis by auto
qed

text \<open>
  Claim C4. For a plugin with at least one dependency whose dependencies classify
  (every kind has a dependency with a time field) and have their iterators in
  \<open>iters\<close>: \<open>iter\<close> with \<open>n_per_iter\<close> set to \<open>n\<close> does what \<open>iter\<close> without
  \<open>n_per_iter\<close> does on \<open>iters\<close> changed at exactly one name, the first dependency
  \<open>d\<close> of the first kind group, which has a time field, to the rechunked iterator of
  \<open>d\<close>; every other name has the iterator it was given. This holds of the
  preparation and of the whole generator, and the flow control step is that one
  update. Without \<open>n_per_iter\<close> neither depends on \<open>fixed_length_chunks\<close> at all: no
  iterator is rechunked.
\<close>

theorem iter_rechunks_first_time_dependency_only:
  assumes "declared p ds" and "ds \<noteq> []" and "\<forall>j \<in> set (kinds p ds). \<not> lacks_time p ds j"
    and "set ds \<subseteq> dom iters"
  shows "\<exists>dbk k d deps rest.
           dependencies_by_kind p True = Inr dbk \<and> dbk = (k, d # deps) # rest \<and>
           d \<in> set ds \<and> has_time p d \<and>
           flow_control ca dbk iters (Some n) =
             Inr (iters(d \<mapsto> fixed_length_chunks ca (the (iters d)) n)) \<and>
           flow_control ca dbk iters None = Inr iters \<and>
           iter_setup ca p iters (Some n) =
             iter_setup ca p (iters(d \<mapsto> fixed_length_chunks ca (the (iters d)) n)) None \<and>
           iter ca p compute iters (Some n) executor =
             iter ca p compute (iters(d \<mapsto> fixed_length_chunks ca (the (iters d)) n)) None
               executor \<and>
           (\<forall>f. iter_setup (ca\<lparr>fixed_length_chunks := f\<rparr>) p iters None =
                  iter_setup ca p iters None) \<and>
           (\<forall>f. iter (ca\<lparr>fixed_length_chunks := f\<rparr>) p compute iters None executor =
                  iter ca p compute iters None executor)"
proof -
  from kinds_nonempty [OF assms(1,2)] obtain k ks where ks: "kinds p ds = k # ks"
    by (cases "kinds p ds") auto
  then have k: "k \<in> set (kinds p ds)" by simp
  with assms(3) have nl: "\<not> lacks_time p ds k" by blast
  from hd_time_first_has_time [OF k] nl obtain d deps
    where tf: "time_first p ds k = d # deps" and d: "d \<in> set (filter (has_time p) ds)"
    by (cases "time_first p ds k") auto
  from d assms(4) obtain it where it: "iters d = Some it" by auto
  let ?iters = "iters(d \<mapsto> fixed_length_chunks ca (the (iters d)) n)"
  have g: "groups p ds = (k, d # deps) # map (\<lambda>k. (k, time_first p ds k)) ks"
    by (simp add: groups_def ks tf)
  have c: "dependencies_by_kind p True = Inr (groups p ds)"
    by (rule dependencies_by_kind_groups [OF assms(1,3)])
  have f1: "flow_control ca (groups p ds) iters (Some n) = Inr ?iters"
    by (simp add: flow_control_def g it)
  have f2: "flow_control ca (groups p ds) its None = Inr its" for its :: "'a iters"
    by (simp add: flow_control_def)
  have s: "iter_setup ca p iters (Some n) = iter_setup ca p ?iters None"
    by (simp add: iter_setup_def c f1 f2)
  have i: "iter ca p compute iters (Some n) executor = iter ca p compute ?iters None executor"
    by (simp add: iter_def s)
  have sl: "sync_lengths (ca\<lparr>fixed_length_chunks := f\<rparr>) dbk its = sync_lengths ca dbk its"
    for f dbk and its :: "'a iters"
    by (induction dbk arbitrary: its) (auto split: sum.splits)
  have s0: "iter_setup (ca\<lparr>fixed_length_chunks := f\<rparr>) p iters None = iter_setup ca p iters None"
    for f
    by (simp add: iter_setup_def c f2 flow_control_def sync_kinds_def sl split: sum.splits)
  then have i0: "iter (ca\<lparr>fixed_length_chunks := f\<rparr>) p compute iters None executor =
                 iter ca p compute iters None executor" for f
    by (simp add: iter_def)
  show ?thesis
    using c g d f1 f2 [of iters] s i s0 i0 by auto
qed

text \<open>
  An instance, with a collaborator that cuts the rows of an iterator into chunks of
  \<open>n\<close>: \<open>a\<close> of kind \<open>events\<close> and \<open>b\<close> of kind \<open>peaks\<close>, both with a time field,
  and \<open>n_per_iter\<close> 2; the chunks of \<open>a\<close> become \<open>[2, 3]\<close> and \<open>[4, 5]\<close>, those of \<open>b\<close>
  stay.
\<close>

theorem iter_rechunks_first_time_dependency_only_witness:
  "declared (example_plugin (Some [''a'', ''b''])
      [(''a'', ''events''), (''b'', ''peaks'')]
      [(''a'', [(''time'', ''i8'')]), (''b'', [(''time'', ''i8'')])]) [''a'', ''b''] \<and>
   set [''a'', ''b''] \<subseteq> dom [''a'' \<mapsto> [[2, 3, 4], [5]], ''b'' \<mapsto> [[6], [7::nat]]] \<and>
   fixed_length_chunks example_rechunk_ca [[2, 3, 4], [5]] 2 = [[2, 3], [4, 5]] \<and>
   iter_setup example_rechunk_ca (example_plugin (Some [''a'', ''b''])
      [(''a'', ''events''), (''b'', ''peaks'')]
      [(''a'', [(''time'', ''i8'')]), (''b'', [(''time'', ''i8'')])])
      [''a'' \<mapsto> [[2, 3, 4], [5]], ''b'' \<mapsto> [[6], [7]]] (Some 2) =
   iter_setup example_rechunk_ca (example_plugin (Some [''a'', ''b''])
      [(''a'', ''events''), (''b'', ''peaks'')]
      [(''a'', [(''time'', ''i8'')]), (''b'', [(''time'', ''i8'')])])
      [''a'' \<mapsto> [[2, 3], [4, 5]], ''b'' \<mapsto> [[6], [7]]] None \<and>
   (\<exists>its. iter_setup example_rechunk_ca (example_plugin (Some [''a'', ''b''])
      [(''a'', ''events''), (''b'', ''peaks'')]
      [(''a'', [(''time'', ''i8'')]), (''b'', [(''time'', ''i8'')])])
      [''a'' \<mapsto> [[2, 3, 4], [5]], ''b'' \<mapsto> [[6], [7]]] (Some 2) = Inr its \<and>
      its ''a'' = Some [[2, 3], [4, 5]] \<and> its ''b'' = Some [[6], [7]])"
proof -
  let ?p = "example_plugin (Some [''a'', ''b''])
      [(''a'', ''events''), (''b'', ''peaks'')]
      [(''a'', [(''time'', ''i8'')]), (''b'', [(''time'', ''i8'')])]"
  let ?ds = "[''a'', ''b'']"
  let ?iters = "[''a'' \<mapsto> [[2, 3, 4], [5]], ''b'' \<mapsto> [[6], [7::nat]]]"
  let ?iters' = "[''a'' \<mapsto> [[2, 3], [4, 5]], ''b'' \<mapsto> [[6], [7::nat]]]"
  have d: "declared ?p ?ds" by (simp add: example_defs)
  have n: "?ds \<noteq> []" by simp
  have a: "\<forall>j \<in> set (kinds ?p ?ds). \<not> lacks_time ?p ?ds j" by (simp add: example_defs)
  have i: "set ?ds \<subseteq> dom ?iters" by simp
  have r: "dependencies_by_kind ?p True = Inr [(''events'', [''a'']), (''peaks'', [''b''])]"
    by (simp add: example_defs dependencies_by_kind_def setdefault_def bucket_def)
  have "rechunk 2 [2, 3, 4, 5::nat] = [[2, 3], [4, 5]]"
    by code_simp
  then have f: "fixed_length_chunks example_rechunk_ca [[2, 3, 4], [5]] 2 = [[2, 3], [4, 5]]"
    by (simp add: example_rechunk_ca_def)
  have u: "?iters(''a'' \<mapsto> fixed_length_chunks example_rechunk_ca (the (?iters ''a'')) 2) =
           ?iters'"
    by (simp add: f fun_eq_iff)
  from iter_rechunks_first_time_dependency_only [OF d n a i, of example_rechunk_ca 2]
  obtain dbk k d' deps rest where
    "dependencies_by_kind ?p True = Inr dbk" "dbk = (k, d' # deps) # rest"
    "iter_setup example_rechunk_ca ?p ?iters (Some 2) =
       iter_setup example_rechunk_ca ?p
         (?iters(d' \<mapsto> fixed_length_chunks example_rechunk_ca (the (?iters d')) 2)) None"
    by blast
  moreover from this r have "d' = ''a''" by simp
  ultimately have e: "iter_setup example_rechunk_ca ?p ?iters (Some 2) =
       iter_setup example_rechunk_ca ?p ?iters' None"
    by (simp only: u)
  have v: "\<exists>its. iter_setup example_rechunk_ca ?p ?iters' None = Inr its \<and>
      its ''a'' = Some [[2, 3], [4, 5]] \<and> its ''b'' = Some [[6], [7]]"
    by (simp add: iter_setup_def r flow_control_def sync_kinds_def example_rechunk_ca_def)
  from d i f e v show ?thesis by simp
qed

subsection \<open>\<open>LoopPlugin.__init__\<close>\<close>

text \<open>
  Claim C7, as amended. Constructing a \<open>LoopPlugin\<close> fails, with the \<open>ValueError\<close>
  \<open>depends_on is mandatory for LoopPlugin\<close>, exactly when the plugin has no
  \<open>depends_on\<close> attribute; a plugin that has one, whatever it holds, is constructed.
\<close>

theorem LoopPlugin_init_fails_without_depends_on_only:
  "(LoopPlugin_init p = Inl e \<longleftrightarrow>
      depends_on p = None \<and> e = ValueError ''depends_on is mandatory for LoopPlugin'') \<and>
   (LoopPlugin_init p = Inr q \<longleftrightarrow> depends_on p \<noteq> None \<and> q = p)"
  by (auto simp: LoopPlugin_init_def split: option.splits)

theorem LoopPlugin_init_fails_without_depends_on_only_witness:
  "LoopPlugin_init (example_plugin None [] []) =
     Inl (ValueError ''depends_on is mandatory for LoopPlugin'') \<and>
   LoopPlugin_init (example_plugin (Some [''a'']) [] []) = Inr (example_plugin (Some [''a'']) [] [])"
  using LoopPlugin_init_fails_without_depends_on_only
    [of "example_plugin None [] []" "ValueError ''depends_on is mandatory for LoopPlugin''"
        "example_plugin None [] []"]
    LoopPlugin_init_fails_without_depends_on_only
    [of "example_plugin (Some [''a'']) [] []" "IndexError" "example_plugin (Some [''a'']) [] []"]
  by (simp add: example_plugin_def)

text \<open>
  Claim C7 as it is written fails for a plugin that declares \<open>depends_on\<close> as the
  empty tuple: it declares no dependency, and its construction succeeds.
\<close>

theorem LoopPlugin_init_accepts_no_dependencies_counterexample:
  "depends_on (example_plugin (Some []) [] []) = Some [] \<and>
   LoopPlugin_init (example_plugin (Some []) [] []) = Inr (example_plugin (Some []) [] [])"
  by (simp add: LoopPlugin_init_def example_plugin_def)

subsection \<open>The loop of \<open>iter\<close>\<close>

lemma update_fresh: "d \<notin> fst ` set kw \<Longrightarrow> AList.update d c kw = kw @ [(d, c)]"
  by (induction kw) auto

lemma pull_batch_full:
  assumes "distinct ds" and "set ds \<subseteq> dom its" and "\<forall>d \<in> set ds. chunks_of its d \<noteq> []"
    and "set ds \<inter> fst ` set kw = {}"
  shows "pull_batch ds its kw =
           (its ++ (\<lambda>x. if x \<in> set ds then Some (tl (chunks_of its x)) else None),
            Batch (kw @ map (\<lambda>d. (d, hd (chunks_of its d))) ds))"
  using assms
proof (induction ds arbitrary: its kw)
  case Nil
  have "its ++ (\<lambda>x. None) = its" by (simp add: map_add_def)
  then show ?case by simp
next
  case (Cons d ds)
  from Cons.prems obtain c cs where c: "its d = Some (c # cs)"
    by (cases "its d"; cases "chunks_of its d") (auto simp: chunks_of_def)
  let ?its = "its(d \<mapsto> cs)"
  have same: "chunks_of ?its x = chunks_of its x" if "x \<in> set ds" for x
    using that Cons.prems(1) by (auto simp: chunks_of_def)
  have fr: "d \<notin> fst ` set kw" using Cons.prems(4) by auto
  have IH: "pull_batch ds ?its (kw @ [(d, c)]) =
      (?its ++ (\<lambda>x. if x \<in> set ds then Some (tl (chunks_of ?its x)) else None),
       Batch ((kw @ [(d, c)]) @ map (\<lambda>d. (d, hd (chunks_of ?its d))) ds))"
  proof (rule Cons.IH)
    show "distinct ds" using Cons.prems(1) by simp
    show "set ds \<subseteq> dom ?its" using Cons.prems(2) by auto
    show "\<forall>d \<in> set ds. chunks_of ?its d \<noteq> []" using Cons.prems(3) same by simp
    show "set ds \<inter> fst ` set (kw @ [(d, c)]) = {}" using Cons.prems(1,4) by auto
  qed
  have m: "map (\<lambda>d. (d, hd (chunks_of ?its d))) ds = map (\<lambda>d. (d, hd (chunks_of its d))) ds"
    using same by simp
  have f: "?its ++ (\<lambda>x. if x \<in> set ds then Some (tl (chunks_of ?its x)) else None) =
           its ++ (\<lambda>x. if x \<in> set (d # ds) then Some (tl (chunks_of its x)) else None)"
    using same c Cons.prems(1) by (auto simp: fun_eq_iff map_add_def chunks_of_def)
  have cd: "chunks_of its d = c # cs" using c by (simp add: chunks_of_def)
  show ?case
    using c Cons.prems(1) by (simp add: update_fresh [OF fr] IH m f cd)
qed

lemma pull_batch_stop:
  assumes "set ds \<subseteq> dom its" and "\<exists>d \<in> set ds. chunks_of its d = []" and "distinct ds"
  shows "\<exists>its'. pull_batch ds its kw = (its', StopIteration)"
  using assms
proof (induction ds arbitrary: its kw)
  case Nil
  then show ?case by simp
next
  case (Cons d ds)
  from Cons.prems(1) obtain xs where xs: "its d = Some xs" by auto
  show ?case
  proof (cases xs)
    case Nil
    then show ?thesis using xs by simp
  next
    case (Cons c cs)
    let ?its = "its(d \<mapsto> cs)"
    have "chunks_of its d \<noteq> []" using xs Cons by (simp add: chunks_of_def)
    with Cons.prems(2) obtain e where e: "e \<in> set ds" "chunks_of its e = []" by auto
    with Cons.prems(3) have "chunks_of ?its e = []" by (auto simp: chunks_of_def)
    with e have "\<exists>d \<in> set ds. chunks_of ?its d = []" by blast
    moreover have "set ds \<subseteq> dom ?its" using Cons.prems(1) by auto
    moreover have "distinct ds" using Cons.prems(3) by simp
    ultimately obtain its' where "pull_batch ds ?its (AList.update d c kw) = (its', StopIteration)"
      using Cons.IH by blast
    then show ?thesis using xs Cons by simp
  qed
qed

lemma n_batches_iff:
  assumes "ds \<noteq> []"
  shows "n_batches ds its = m \<longleftrightarrow>
           (\<forall>d \<in> set ds. m \<le> length (chunks_of its d)) \<and>
           (\<exists>d \<in> set ds. length (chunks_of its d) = m)"
proof -
  let ?S = "set (map (\<lambda>d. length (chunks_of its d)) ds)"
  have fin: "finite ?S" and ne: "?S \<noteq> {}" using assms by simp_all
  have "Min ?S = m \<longleftrightarrow> m \<in> ?S \<and> (\<forall>x \<in> ?S. m \<le> x)"
    using Min_eq_iff [OF fin ne] by blast
  then show ?thesis by (auto simp: n_batches_def)
qed

lemma iter_loop_batches:
  assumes "depends_on p = Some ds" and "ds \<noteq> []" and "distinct ds" and "set ds \<subseteq> dom its"
    and "multiprocess p \<and> executor \<noteq> None \<or>
         (\<forall>i < n_batches ds its. \<exists>r. compute (batch ds its i) = Inr r)"
  shows "\<exists>its'. iter_loop p compute executor its outs =
           Some (outs @ map (\<lambda>i. yield_of p compute executor (batch ds its i))
                          [0..<n_batches ds its], None, its')"
  using assms(4,5)
proof (induction "n_batches ds its" arbitrary: its outs)
  case 0
  then have "n_batches ds its = 0" by simp
  then have "\<exists>d \<in> set ds. chunks_of its d = []"
    using n_batches_iff [OF assms(2), of its 0] by auto
  then obtain its' where "pull_batch ds its [] = (its', StopIteration)"
    using pull_batch_stop [OF "0.prems"(1) _ assms(3)] by blast
  then show ?case
    using 0(1) [symmetric] by (subst iter_loop.simps) (simp add: assms(1))
next
  case (Suc n)
  then have nb: "n_batches ds its = Suc n" by simp
  let ?its = "its ++ (\<lambda>x. if x \<in> set ds then Some (tl (chunks_of its x)) else None)"
  have len: "\<forall>d \<in> set ds. Suc n \<le> length (chunks_of its d)"
    and ex: "\<exists>d \<in> set ds. length (chunks_of its d) = Suc n"
    using nb n_batches_iff [OF assms(2), of its "Suc n"] by auto
  have nonempty: "\<forall>d \<in> set ds. chunks_of its d \<noteq> []" using len by auto
  have b0: "map (\<lambda>d. (d, hd (chunks_of its d))) ds = batch ds its 0"
    using nonempty by (simp add: batch_def hd_conv_nth)
  have pull: "pull_batch ds its [] = (?its, Batch (batch ds its 0))"
    using pull_batch_full [OF assms(3) Suc.prems(1) nonempty, of "[]"] b0 by simp
  have ch: "chunks_of ?its d = tl (chunks_of its d)" if "d \<in> set ds" for d
    using that by (simp add: chunks_of_def map_add_def)
  have nb': "n = n_batches ds ?its"
  proof -
    have "(\<forall>d \<in> set ds. n \<le> length (chunks_of ?its d)) \<and>
          (\<exists>d \<in> set ds. length (chunks_of ?its d) = n)"
      using len ex by (force simp: ch)
    then show ?thesis using n_batches_iff [OF assms(2), of ?its n] by simp
  qed
  have bt: "batch ds ?its i = batch ds its (Suc i)" if "i < n" for i
  proof -
    have "chunks_of ?its d ! i = chunks_of its d ! Suc i" if "d \<in> set ds" for d
    proof -
      from len that have "i < length (tl (chunks_of its d))" using \<open>i < n\<close> by auto
      then show ?thesis by (simp add: ch [OF that] nth_tl)
    qed
    then show ?thesis by (simp add: batch_def)
  qed
  have dom': "set ds \<subseteq> dom ?its" by auto
  have ok': "multiprocess p \<and> executor \<noteq> None \<or>
         (\<forall>i < n_batches ds ?its. \<exists>r. compute (batch ds ?its i) = Inr r)"
    using Suc.prems(2) nb bt nb' by auto
  have maps: "map (\<lambda>i. yield_of p compute executor (batch ds its i)) [0..<Suc n] =
      yield_of p compute executor (batch ds its 0) #
      map (\<lambda>i. yield_of p compute executor (batch ds ?its i)) [0..<n]"
  proof -
    have "[0..<Suc n] = 0 # map Suc [0..<n]" by (simp add: upt_conv_Cons map_Suc_upt)
    then show ?thesis using bt by (simp add: comp_def)
  qed
  from Suc.hyps(1) [OF nb' dom' ok']
  have IH: "\<exists>its'. iter_loop p compute executor ?its outs' =
           Some (outs' @ map (\<lambda>i. yield_of p compute executor (batch ds ?its i)) [0..<n],
                 None, its')" for outs'
    using nb' by simp
  have unf: "iter_loop p compute executor its outs =
      (if multiprocess p \<and> executor \<noteq> None
       then iter_loop p compute executor ?its
              (outs @ [Handle ((the executor) compute (batch ds its 0))])
       else (case compute (batch ds its 0) of
               Inl e \<Rightarrow> Some (outs, Some e, ?its)
             | Inr r \<Rightarrow> iter_loop p compute executor ?its (outs @ [Result r])))"
    by (subst iter_loop.simps) (simp only: assms(1) pull option.case prod.case pulled.case)
  have step: "iter_loop p compute executor its outs =
      iter_loop p compute executor ?its (outs @ [yield_of p compute executor (batch ds its 0)])"
  proof (cases "multiprocess p \<and> executor \<noteq> None")
    case True
    show ?thesis
      unfolding unf yield_of_def by (simp only: if_P [OF True])
  next
    case False
    with Suc.prems(2) nb obtain r where r: "compute (batch ds its 0) = Inr r" by auto
    show ?thesis
      unfolding unf yield_of_def by (simp only: if_not_P [OF False] r sum.case sum.sel)
  qed
  from IH [of "outs @ [yield_of p compute executor (batch ds its 0)]"]
  show ?case
    unfolding step nb maps by simp
qed

text \<open>
  Claim C3. Let \<open>its\<close> be the iterators with which \<open>iter\<close> enters its loop, for a
  plugin with distinct dependencies \<open>ds\<close>, at least one, each with its iterator, of
  whatever lengths; and let \<open>compute\<close> not raise on the batches (or the work be
  submitted). Then \<open>iter\<close> yields as many outputs as the shortest of the iterators of
  \<open>ds\<close> has chunks; output \<open>i\<close> is made from the batch that holds chunk \<open>i\<close> of every
  dependency, so no batch is partial; and the generator ends by returning, with no
  error.
\<close>

theorem iter_stops_at_first_exhausted_dependency:
  assumes "iter_setup ca p iters n_per_iter = Inr its"
    and "depends_on p = Some ds" and "ds \<noteq> []" and "distinct ds" and "set ds \<subseteq> dom its"
    and "multiprocess p \<and> executor \<noteq> None \<or>
         (\<forall>i < n_batches ds its. \<exists>r. compute (batch ds its i) = Inr r)"
  shows "\<exists>outs its'.
           iter ca p compute iters n_per_iter executor = Some (outs, None, its') \<and>
           length outs = Min (set (map (\<lambda>d. length (chunks_of its d)) ds)) \<and>
           (\<forall>i < length outs. outs ! i = yield_of p compute executor (batch ds its i) \<and>
                               map fst (batch ds its i) = ds)"
proof -
  from iter_loop_batches [OF assms(2-6), of "[]"]
  obtain its' where "iter_loop p compute executor its [] =
      Some (map (\<lambda>i. yield_of p compute executor (batch ds its i)) [0..<n_batches ds its],
            None, its')"
    by auto
  then have "iter ca p compute iters n_per_iter executor =
      Some (map (\<lambda>i. yield_of p compute executor (batch ds its i)) [0..<n_batches ds its],
            None, its')"
    by (simp add: iter_def assms(1))
  moreover have "map fst (batch ds its i) = ds" for i
    by (simp add: batch_def comp_def)
  ultimately show ?thesis
    by (simp add: n_batches_def)
qed

lemmas setup_defs = iter_setup_def dependencies_by_kind_def setdefault_def bucket_def
  flow_control_def sync_kinds_def example_ca_def names_def example_plugin_def

text \<open>
  An instance: \<open>a\<close> with three chunks and \<open>b\<close> with two, of one kind; two outputs.
\<close>

theorem iter_stops_at_first_exhausted_dependency_witness:
  "iter_setup example_ca
      (example_plugin (Some [''a'', ''b'']) [(''a'', ''peaks''), (''b'', ''peaks'')]
         [(''a'', [(''time'', ''i8'')]), (''b'', [(''x'', ''f4'')])])
      [''a'' \<mapsto> [1, 2, 3], ''b'' \<mapsto> [4, 5]] None =
     Inr [''a'' \<mapsto> [1, 2, 3], ''b'' \<mapsto> [4, 5], ''a'' \<mapsto> [1, 2, 3], ''b'' \<mapsto> [4, 5]] \<and>
   (\<exists>outs its'.
      iter example_ca
        (example_plugin (Some [''a'', ''b'']) [(''a'', ''peaks''), (''b'', ''peaks'')]
           [(''a'', [(''time'', ''i8'')]), (''b'', [(''x'', ''f4'')])])
        example_compute [''a'' \<mapsto> [1, 2, 3], ''b'' \<mapsto> [4, 5]] None no_executor =
        Some (outs, None, its') \<and>
      length outs = 2)"
proof -
  let ?p = "example_plugin (Some [''a'', ''b'']) [(''a'', ''peaks''), (''b'', ''peaks'')]
         [(''a'', [(''time'', ''i8'')]), (''b'', [(''x'', ''f4'')])]"
  let ?ds = "[''a'', ''b'']"
  let ?iters = "[''a'' \<mapsto> [1, 2, 3], ''b'' \<mapsto> [4, 5::nat]]"
  let ?its = "[''a'' \<mapsto> [1, 2, 3], ''b'' \<mapsto> [4, 5], ''a'' \<mapsto> [1, 2, 3], ''b'' \<mapsto> [4, 5::nat]]"
  have s: "iter_setup example_ca ?p ?iters None = Inr ?its"
    by (simp add: setup_defs)
  have d: "depends_on ?p = Some ?ds" by (simp add: example_plugin_def)
  have n: "?ds \<noteq> []" and di: "distinct ?ds" and dom: "set ?ds \<subseteq> dom ?its" by simp_all
  have c: "multiprocess ?p \<and> no_executor \<noteq> None \<or>
       (\<forall>i < n_batches ?ds ?its. \<exists>r. example_compute (batch ?ds ?its i) = Inr r)"
    by (simp add: example_compute_def)
  have m: "Min (set (map (\<lambda>d. length (chunks_of ?its d)) ?ds)) = 2"
    by (simp add: chunks_of_def)
  from iter_stops_at_first_exhausted_dependency [OF s d n di dom c]
  obtain outs its' where
    A: "iter example_ca ?p example_compute ?iters None no_executor = Some (outs, None, its')"
    and B: "length outs = Min (set (map (\<lambda>d. length (chunks_of ?its d)) ?ds))"
    by blast
  from B have "length outs = 2" by (simp only: m)
  with A s show ?thesis by blast
qed

text \<open>
  Claim C5. Under the conditions of C3, what \<open>iter\<close> yields for the batch of round
  \<open>i\<close> is the handle that the executor returns for the submission of \<open>compute\<close> with
  that batch if the plugin is marked \<open>multiprocess\<close> and an executor was given, and
  otherwise the result of \<open>compute\<close> on that batch; and in both cases the outputs stand
  in the order of the rounds in which their batches were assembled.
\<close>

theorem iter_yields_handles_or_results_in_batch_order:
  assumes "iter_setup ca p iters n_per_iter = Inr its"
    and "depends_on p = Some ds" and "ds \<noteq> []" and "distinct ds" and "set ds \<subseteq> dom its"
    and "multiprocess p \<and> executor \<noteq> None \<or>
         (\<forall>i < n_batches ds its. \<exists>r. compute (batch ds its i) = Inr r)"
  shows "\<exists>its'. iter ca p compute iters n_per_iter executor =
           Some (map (\<lambda>i. if multiprocess p \<and> executor \<noteq> None
                          then Handle ((the executor) compute (batch ds its i))
                          else Result (projr (compute (batch ds its i))))
                   [0..<n_batches ds its],
                 None, its')"
proof -
  from iter_loop_batches [OF assms(2-6), of "[]"]
  obtain its' where "iter_loop p compute executor its [] =
      Some (map (\<lambda>i. yield_of p compute executor (batch ds its i)) [0..<n_batches ds its],
            None, its')"
    by auto
  then have "iter ca p compute iters n_per_iter executor =
      Some (map (\<lambda>i. yield_of p compute executor (batch ds its i)) [0..<n_batches ds its],
            None, its')"
    by (simp add: iter_def assms(1))
  then show ?thesis
    unfolding yield_of_def by blast
qed

text \<open>
  An instance: a \<open>multiprocess\<close> plugin with an executor; \<open>a\<close> of kind \<open>events\<close> has
  three chunks, \<open>b\<close> of kind \<open>peaks\<close> two; two handles, in the order of the batches.
\<close>

theorem iter_yields_handles_or_results_in_batch_order_witness:
  "iter_setup example_ca
      ((example_plugin (Some [''a'', ''b'']) [(''a'', ''events''), (''b'', ''peaks'')]
         [(''a'', [(''time'', ''i8'')]), (''b'', [(''time'', ''i8'')])])\<lparr>multiprocess := True\<rparr>)
      [''a'' \<mapsto> [1, 2, 3], ''b'' \<mapsto> [4, 5]] None =
     Inr [''a'' \<mapsto> [1, 2, 3], ''b'' \<mapsto> [4, 5], ''a'' \<mapsto> [1, 2, 3], ''b'' \<mapsto> [4, 5]] \<and>
   (\<exists>its'.
      iter example_ca
        ((example_plugin (Some [''a'', ''b'']) [(''a'', ''events''), (''b'', ''peaks'')]
           [(''a'', [(''time'', ''i8'')]), (''b'', [(''time'', ''i8'')])])\<lparr>multiprocess := True\<rparr>)
        example_compute [''a'' \<mapsto> [1, 2, 3], ''b'' \<mapsto> [4, 5]] None (Some example_executor) =
        Some ([Handle (Inr [(''a'', 1), (''b'', 4)]), Handle (Inr [(''a'', 2), (''b'', 5)])],
              None, its'))"
proof -
  let ?p = "(example_plugin (Some [''a'', ''b'']) [(''a'', ''events''), (''b'', ''peaks'')]
         [(''a'', [(''time'', ''i8'')]), (''b'', [(''time'', ''i8'')])])\<lparr>multiprocess := True\<rparr>"
  let ?ds = "[''a'', ''b'']"
  let ?iters = "[''a'' \<mapsto> [1, 2, 3], ''b'' \<mapsto> [4, 5::nat]]"
  let ?its = "[''a'' \<mapsto> [1, 2, 3], ''b'' \<mapsto> [4, 5], ''a'' \<mapsto> [1, 2, 3], ''b'' \<mapsto> [4, 5::nat]]"
  let ?ex = "Some example_executor"
  have s: "iter_setup example_ca ?p ?iters None = Inr ?its"
    by (simp add: setup_defs)
  have d: "depends_on ?p = Some ?ds" by (simp add: example_plugin_def)
  have n: "?ds \<noteq> []" and di: "distinct ?ds" and dom: "set ?ds \<subseteq> dom ?its" by simp_all
  have mp: "multiprocess ?p \<and> ?ex \<noteq> None" by simp
  then have c: "multiprocess ?p \<and> ?ex \<noteq> None \<or>
       (\<forall>i < n_batches ?ds ?its. \<exists>r. example_compute (batch ?ds ?its i) = Inr r)"
    by (rule disjI1)
  have m: "n_batches ?ds ?its = 2"
    by (simp add: n_batches_def chunks_of_def)
  have ys: "map (\<lambda>i. if multiprocess ?p \<and> ?ex \<noteq> None
                          then Handle ((the ?ex) example_compute (batch ?ds ?its i))
                          else Result (projr (example_compute (batch ?ds ?its i))))
                   [0..<2] =
      [Handle (Inr [(''a'', 1), (''b'', 4)]), Handle (Inr [(''a'', 2), (''b'', 5)])]"
    by (simp add: batch_def chunks_of_def example_executor_def example_compute_def
        upt_rec [of 0] upt_rec [of 1] upt_rec [of 2] numeral_2_eq_2)
  from iter_yields_handles_or_results_in_batch_order [OF s d n di dom c]
  obtain its' where
    "iter example_ca ?p example_compute ?iters None ?ex =
       Some (map (\<lambda>i. if multiprocess ?p \<and> ?ex \<noteq> None
                          then Handle ((the ?ex) example_compute (batch ?ds ?its i))
                          else Result (projr (example_compute (batch ?ds ?its i))))
                   [0..<n_batches ?ds ?its], None, its')"
    by blast
  then have "iter example_ca ?p example_compute ?iters None ?ex =
       Some ([Handle (Inr [(''a'', 1), (''b'', 4)]), Handle (Inr [(''a'', 2), (''b'', 5)])],
             None, its')"
    by (simp only: m ys)
  with s show ?thesis by blast
qed

subsection \<open>\<open>LoopPlugin.compute\<close>\<close>

lemma row_kwargs_args:
  "\<forall>(k, parts) \<in> set things. i < length parts \<Longrightarrow> row_kwargs things i = Inr (row_args things i)"
  by (induction things) (auto simp: row_args_def)

lemma map_of_map_values:
  "map_of (map (\<lambda>(k, v). (k, g k v)) xs) f = map_option (g f) (map_of xs f)"
  by (induction xs) auto

lemma write_fields_map_of:
  assumes "map fst row = names dt"
    and "\<forall>(k, v) \<in> set r. \<exists>t v'. map_of dt k = Some t \<and> convert t v = Inr v'"
  shows "\<exists>row'. write_fields convert dt r row = Inr row' \<and> map fst row' = names dt \<and>
          (\<forall>f. map_of row' f =
             (case map_of (rev r) f of
                None \<Rightarrow> map_of row f
              | Some v \<Rightarrow> Some (field_value convert dt r f)))"
  using assms
proof (induction r arbitrary: row)
  case Nil
  then show ?case by simp
next
  case (Cons kv r)
  obtain k v where kv: "kv = (k, v)" by (cases kv)
  from Cons.prems(2) kv obtain t v' where t: "map_of dt k = Some t" and c: "convert t v = Inr v'"
    by auto
  let ?row = "AList.update k v' row"
  from t have "k \<in> set (names dt)"
    by (metis names_def map_of_eq_None_iff option.distinct(1) set_map)
  with Cons.prems(1) have k: "k \<in> set (map fst row)" by simp
  then have keys: "map fst ?row = names dt" using Cons.prems(1) by (simp add: update_keys)
  from Cons.prems(2) have rest: "\<forall>(k, v) \<in> set r. \<exists>t v'. map_of dt k = Some t \<and> convert t v = Inr v'"
    by simp
  from Cons.IH [OF keys rest] obtain row' where
    w: "write_fields convert dt r ?row = Inr row'" and f: "map fst row' = names dt"
    and m: "\<forall>f. map_of row' f =
             (case map_of (rev r) f of
                None \<Rightarrow> map_of ?row f
              | Some v \<Rightarrow> Some (field_value convert dt r f))" by blast
  have "map_of row' f =
             (case map_of (rev (kv # r)) f of
                None \<Rightarrow> map_of row f
              | Some v \<Rightarrow> Some (field_value convert dt (kv # r) f))" for f
    using m t c
    by (auto simp: kv update_conv' field_value_def map_add_def split: option.splits)
  with w f t c show ?case by (simp add: kv set_field_def)
qed

lemma loop_rows_results:
  assumes "distinct js" and "\<forall>i \<in> set js. i < length results"
    and "\<forall>i \<in> set js. \<forall>(k, parts) \<in> set things. i < length parts"
    and "\<forall>i \<in> set js. map fst (results ! i) = names dt"
    and "\<forall>i \<in> set js. \<exists>r. compute_loop (base ! i) (row_args things i) = Inr r \<and>
           (\<forall>(k, v) \<in> set r. \<exists>t v'. map_of dt k = Some t \<and> convert t v = Inr v')"
  shows "\<exists>res. loop_rows convert dt compute_loop base things js results = Inr res \<and>
           length res = length results \<and>
           (\<forall>j < length results. j \<notin> set js \<longrightarrow> res ! j = results ! j) \<and>
           (\<forall>i \<in> set js. map fst (res ! i) = names dt \<and>
              (\<forall>f. map_of (res ! i) f =
                 (case map_of (rev (projr (compute_loop (base ! i) (row_args things i)))) f of
                    None \<Rightarrow> map_of (results ! i) f
                  | Some v \<Rightarrow>
                      Some (field_value convert dt
                              (projr (compute_loop (base ! i) (row_args things i))) f))))"
  using assms
proof (induction js arbitrary: results)
  case Nil
  then show ?case by simp
next
  case (Cons i js)
  from Cons.prems(5) obtain r where r: "compute_loop (base ! i) (row_args things i) = Inr r"
    and rk: "\<forall>(k, v) \<in> set r. \<exists>t v'. map_of dt k = Some t \<and> convert t v = Inr v'" by auto
  from Cons.prems(3) have ka: "row_kwargs things i = Inr (row_args things i)"
    by (intro row_kwargs_args) auto
  from Cons.prems(4) have ki: "map fst (results ! i) = names dt" by simp
  from write_fields_map_of [OF ki rk] obtain row where
    w: "write_fields convert dt r (results ! i) = Inr row" and wf: "map fst row = names dt"
    and wm: "\<forall>f. map_of row f =
             (case map_of (rev r) f of
                None \<Rightarrow> map_of (results ! i) f
              | Some v \<Rightarrow> Some (field_value convert dt r f))" by blast
  let ?results = "results[i := row]"
  have i: "i < length results" and inot: "i \<notin> set js" using Cons.prems(1,2) by auto
  have same: "?results ! j = results ! j" if "j \<in> set js" for j
    using that inot by (metis nth_list_update_neq)
  have "\<exists>res. loop_rows convert dt compute_loop base things js ?results = Inr res \<and>
           length res = length ?results \<and>
           (\<forall>j < length ?results. j \<notin> set js \<longrightarrow> res ! j = ?results ! j) \<and>
           (\<forall>i \<in> set js. map fst (res ! i) = names dt \<and>
              (\<forall>f. map_of (res ! i) f =
                 (case map_of (rev (projr (compute_loop (base ! i) (row_args things i)))) f of
                    None \<Rightarrow> map_of (?results ! i) f
                  | Some v \<Rightarrow>
                      Some (field_value convert dt
                              (projr (compute_loop (base ! i) (row_args things i))) f))))"
  proof (rule Cons.IH)
    show "distinct js" using Cons.prems(1) by simp
    show "\<forall>i \<in> set js. i < length ?results" using Cons.prems(2) by simp
    show "\<forall>i \<in> set js. \<forall>(k, parts) \<in> set things. i < length parts"
      using Cons.prems(3) by simp
    show "\<forall>i \<in> set js. map fst (?results ! i) = names dt"
      using Cons.prems(4) same by simp
    show "\<forall>i \<in> set js. \<exists>r. compute_loop (base ! i) (row_args things i) = Inr r \<and>
           (\<forall>(k, v) \<in> set r. \<exists>t v'. map_of dt k = Some t \<and> convert t v = Inr v')"
      using Cons.prems(5) by simp
  qed
  then obtain res where
    l: "loop_rows convert dt compute_loop base things js ?results = Inr res"
    and len: "length res = length results"
    and others: "\<forall>j < length results. j \<notin> set js \<longrightarrow> res ! j = ?results ! j"
    and written: "\<forall>i \<in> set js. map fst (res ! i) = names dt \<and>
              (\<forall>f. map_of (res ! i) f =
                 (case map_of (rev (projr (compute_loop (base ! i) (row_args things i)))) f of
                    None \<Rightarrow> map_of (?results ! i) f
                  | Some v \<Rightarrow>
                      Some (field_value convert dt
                              (projr (compute_loop (base ! i) (row_args things i))) f)))"
    by auto
  have here: "res ! i = row" using others i inot by simp
  have "loop_rows convert dt compute_loop base things (i # js) results = Inr res"
    by (simp add: ka r w l)
  moreover have "\<forall>j < length results. j \<notin> set (i # js) \<longrightarrow> res ! j = results ! j"
    using others by simp
  moreover have "\<forall>j \<in> set (i # js). map fst (res ! j) = names dt \<and>
              (\<forall>f. map_of (res ! j) f =
                 (case map_of (rev (projr (compute_loop (base ! j) (row_args things j)))) f of
                    None \<Rightarrow> map_of (results ! j) f
                  | Some v \<Rightarrow>
                      Some (field_value convert dt
                              (projr (compute_loop (base ! j) (row_args things j))) f)))"
  proof
    fix j assume "j \<in> set (i # js)"
    then consider "j = i" | "j \<in> set js" by auto
    then show "map fst (res ! j) = names dt \<and>
              (\<forall>f. map_of (res ! j) f =
                 (case map_of (rev (projr (compute_loop (base ! j) (row_args things j)))) f of
                    None \<Rightarrow> map_of (results ! j) f
                  | Some v \<Rightarrow>
                      Some (field_value convert dt
                              (projr (compute_loop (base ! j) (row_args things j))) f)))"
    proof cases
      case 1
      then show ?thesis using here wf wm r by (simp cong: option.case_cong)
    next
      case 2
      from written 2 same [OF 2] show ?thesis by (auto cong: option.case_cong)
    qed
  qed
  ultimately show ?case using len by blast
qed

lemma map_of_zero_row:
  "map_of (zero_row dt) f = (if f \<in> set (names dt) then Some 0 else None)"
  by (induction dt) (auto simp: zero_row_def names_def)

lemma keys_zero_row: "map fst (zero_row dt) = names dt"
  by (simp add: zero_row_def names_def case_prod_unfold comp_def)

text \<open>
  Claim C6. Let the first half of \<open>LoopPlugin.compute\<close> give the base array and the
  things split by containment, with a part for every base row, and let the callback
  return for every base row a mapping that names fields of the plugin's dtype only,
  with values that numpy can convert to the types of these fields. Then \<open>compute\<close>
  returns an array with exactly one row for each base row, in the order of the base
  rows; row \<open>i\<close> has the fields of the dtype; each field that the mapping returned
  for base row \<open>i\<close> names holds what the assignment stores for the mapping's value,
  its conversion to the type of the field; and each field that the mapping does not
  name holds zero.
\<close>

theorem loop_compute_one_row_per_base_row:
  fixes compute_loop :: "'a \<Rightarrow> 'a list kwargs \<Rightarrow> error + (string \<times> 'v::zero) list"
  assumes "loop_inputs lib p kw = Inr (base, things)" and "dtype p = Some dt"
    and "\<forall>(k, parts) \<in> set things. length base \<le> length parts"
    and "\<forall>i < length base. \<exists>r. compute_loop (base ! i) (row_args things i) = Inr r \<and>
           (\<forall>(k, v) \<in> set r. \<exists>t v'. map_of dt k = Some t \<and> convert t v = Inr v')"
  shows "\<exists>results. LoopPlugin_compute lib convert p compute_loop kw = Inr results \<and>
           length results = length base \<and>
           (\<forall>i < length base.
              map fst (results ! i) = names dt \<and>
              (\<forall>f \<in> set (names dt).
                 map_of (results ! i) f =
                   Some (field_value convert dt
                           (projr (compute_loop (base ! i) (row_args things i))) f)))"
proof -
  let ?n = "length base"
  let ?zeros = "replicate ?n (zero_row dt :: 'v row)"
  have z: "?zeros ! i = zero_row dt" if "i < ?n" for i using that by simp
  have "\<exists>res. loop_rows convert dt compute_loop base things [0..<?n] ?zeros = Inr res \<and>
           length res = length ?zeros \<and>
           (\<forall>j < length ?zeros. j \<notin> set [0..<?n] \<longrightarrow> res ! j = ?zeros ! j) \<and>
           (\<forall>i \<in> set [0..<?n]. map fst (res ! i) = names dt \<and>
              (\<forall>f. map_of (res ! i) f =
                 (case map_of (rev (projr (compute_loop (base ! i) (row_args things i)))) f of
                    None \<Rightarrow> map_of (?zeros ! i) f
                  | Some v \<Rightarrow>
                      Some (field_value convert dt
                              (projr (compute_loop (base ! i) (row_args things i))) f))))"
  proof (rule loop_rows_results)
    show "distinct [0..<?n]" by simp
    show "\<forall>i \<in> set [0..<?n]. i < length ?zeros" by simp
    show "\<forall>i \<in> set [0..<?n]. \<forall>(k, parts) \<in> set things. i < length parts"
      using assms(3) by fastforce
    show "\<forall>i \<in> set [0..<?n]. map fst (?zeros ! i) = names dt"
      by (simp add: keys_zero_row)
    show "\<forall>i \<in> set [0..<?n]. \<exists>r. compute_loop (base ! i) (row_args things i) = Inr r \<and>
           (\<forall>(k, v) \<in> set r. \<exists>t v'. map_of dt k = Some t \<and> convert t v = Inr v')"
      using assms(4) by simp
  qed
  then obtain res where
    l: "loop_rows convert dt compute_loop base things [0..<?n] ?zeros = Inr res"
    and len: "length res = ?n"
    and rows: "\<forall>i < ?n. map fst (res ! i) = names dt \<and>
              (\<forall>f. map_of (res ! i) f =
                 (case map_of (rev (projr (compute_loop (base ! i) (row_args things i)))) f of
                    None \<Rightarrow> map_of (zero_row dt :: 'v row) f
                  | Some v \<Rightarrow>
                      Some (field_value convert dt
                              (projr (compute_loop (base ! i) (row_args things i))) f)))"
    by (auto simp: z cong: option.case_cong)
  have "LoopPlugin_compute lib convert p compute_loop kw = Inr res"
    by (simp add: LoopPlugin_compute_def assms(1,2) l)
  moreover have "\<forall>i < ?n. map fst (res ! i) = names dt \<and>
              (\<forall>f \<in> set (names dt).
                 map_of (res ! i) f =
                   Some (field_value convert dt
                           (projr (compute_loop (base ! i) (row_args things i))) f))"
    using rows
    by (auto simp: map_of_zero_row field_value_def split: option.splits)
  ultimately show ?thesis using len by blast
qed

text \<open>
  An instance: the events \<open>[0, 100)\<close> and \<open>[200, 300)\<close>, peaks at 10, 50 and 250,
  and the counting callback; two rows, with the counts 2 and 1, and \<open>time\<close> left zero.
\<close>

theorem loop_compute_one_row_per_base_row_witness:
  "loop_inputs example_lib example_loop_plugin
      [(''events'', [(0, 100), (200, 300)]), (''peaks'', [(10, 11), (50, 51), (250, 251)])] =
     Inr ([(0, 100), (200, 300)], [(''peaks'', [[(10, 11), (50, 51)], [(250, 251)]])]) \<and>
   (\<exists>results.
      LoopPlugin_compute example_lib example_convert example_loop_plugin count_peaks
        [(''events'', [(0, 100), (200, 300)]), (''peaks'', [(10, 11), (50, 51), (250, 251)])] =
        Inr results \<and>
      length results = 2 \<and>
      map fst (results ! 0) = [''time'', ''n_peaks''] \<and>
      map_of (results ! 0) ''n_peaks'' = Some 2 \<and>
      map_of (results ! 0) ''time'' = Some 0 \<and>
      map_of (results ! 1) ''n_peaks'' = Some 1)"
proof -
  let ?kw = "[(''events'', [(0, 100), (200, 300)]),
              (''peaks'', [(10, 11), (50, 51), (250, 251::nat)])] :: (nat \<times> nat) list kwargs"
  let ?base = "[(0, 100), (200, 300)] :: (nat \<times> nat) list"
  let ?things = "[(''peaks'', [[(10, 11), (50, 51)], [(250, 251)]])]
                   :: (string \<times> (nat \<times> nat) list list) list"
  let ?dt = "[(''time'', ''i8''), (''n_peaks'', ''i4'')]"
  have li: "loop_inputs example_lib example_loop_plugin ?kw = Inr (?base, ?things)"
    by (simp add: loop_inputs_def loop_kind_def example_loop_plugin_def example_plugin_def
        dependencies_by_kind_def setdefault_def bucket_def names_def example_lib_def)
  have dt: "dtype example_loop_plugin = Some ?dt"
    by (simp add: example_loop_plugin_def example_plugin_def)
  have parts: "\<forall>(k, parts) \<in> set ?things. length ?base \<le> length parts" by simp
  have cl: "\<forall>i < length ?base. \<exists>r. count_peaks (?base ! i) (row_args ?things i) = Inr r \<and>
           (\<forall>(k, v) \<in> set r. \<exists>t v'. map_of ?dt k = Some t \<and> example_convert t v = Inr v')"
    by (auto simp: count_peaks_def example_convert_def row_args_def less_Suc_eq numeral_2_eq_2)
  from loop_compute_one_row_per_base_row [OF li dt parts cl]
  obtain results where
    r: "LoopPlugin_compute example_lib example_convert example_loop_plugin count_peaks ?kw = Inr results"
    and len: "length results = length ?base"
    and rows: "\<forall>i < length ?base.
              map fst (results ! i) = names ?dt \<and>
              (\<forall>f \<in> set (names ?dt).
                 map_of (results ! i) f =
                   Some (field_value example_convert ?dt (projr (count_peaks (?base ! i) (row_args ?things i))) f))"
    by blast
  from rows have r0: "map fst (results ! 0) = names ?dt \<and>
              (\<forall>f \<in> set (names ?dt).
                 map_of (results ! 0) f =
                   Some (field_value example_convert ?dt (projr (count_peaks (?base ! 0) (row_args ?things 0))) f))"
    by simp
  from rows have r1: "\<forall>f \<in> set (names ?dt).
                 map_of (results ! 1) f =
                   Some (field_value example_convert ?dt (projr (count_peaks (?base ! 1) (row_args ?things 1))) f)"
    by simp
  from r0 have a: "map fst (results ! 0) = [''time'', ''n_peaks'']"
    and b: "map_of (results ! 0) ''n_peaks'' = Some 2"
    and c: "map_of (results ! 0) ''time'' = Some 0"
    by (simp_all add: names_def field_value_def count_peaks_def row_args_def example_convert_def)
  from r1 have d: "map_of (results ! 1) ''n_peaks'' = Some 1"
    by (simp add: names_def field_value_def count_peaks_def row_args_def example_convert_def)
  from li r len a b c d show ?thesis by simp
qed

text \<open>
  A value that the conversion refuses ends \<open>compute\<close> with the error of the
  conversion: there is no output array then.
\<close>

lemma loop_compute_overflow_example:
  "LoopPlugin_compute example_lib example_convert example_loop_plugin
     (\<lambda>base kw. Inr [(''n_peaks'', 2147483648)])
     [(''events'', [(0, 100)]), (''peaks'', [(10, 11)])] =
   Inl (OverflowError ''Python int too large to convert to C long'')"
  by (simp add: LoopPlugin_compute_def loop_inputs_def loop_kind_def example_loop_plugin_def
      example_plugin_def dependencies_by_kind_def setdefault_def bucket_def names_def
      example_lib_def set_field_def example_convert_def)

subsection \<open>\<open>MergePlugin.infer_dtype\<close>\<close>

lemma join_contains:
  "x \<in> set xs \<Longrightarrow> \<exists>pre post. join sep xs = pre @ x @ post"
proof (induction sep xs rule: join.induct)
  case (1 sep)
  then show ?case by simp
next
  case (2 sep y)
  then have "join sep [y] = [] @ x @ []" by simp
  then show ?case by blast
next
  case (3 sep y z zs)
  show ?case
  proof (cases "x = y")
    case True
    then have "join sep (y # z # zs) = [] @ x @ (sep @ join sep (z # zs))" by simp
    then show ?thesis by blast
  next
    case False
    with 3 obtain pre post where "join sep (z # zs) = pre @ x @ post" by auto
    then have "join sep (y # z # zs) = (y @ sep @ pre) @ x @ post" by simp
    then show ?thesis by blast
  qed
qed

lemma message_names_group:
  assumes "(k, deps) \<in> set dbk"
  shows "\<exists>pre post. multiple_kinds_message dbk =
           pre @ (py_repr k @ '': '' @ py_str_list deps) @ post"
proof -
  let ?f = "\<lambda>(k, deps). py_repr k @ '': '' @ py_str_list deps"
  from assms have "?f (k, deps) \<in> set (map ?f dbk)" by force
  then obtain pre post where "join '', '' (map ?f dbk) = pre @ ?f (k, deps) @ post"
    using join_contains by blast
  then have "multiple_kinds_message dbk =
      (''MergePlugins can only merge data of the same kind, but got multiple kinds: '' @ ''{'' @ pre)
        @ (py_repr k @ '': '' @ py_str_list deps) @ (post @ ''}'')"
    by (simp add: multiple_kinds_message_def py_str_dict_def)
  then show ?thesis by blast
qed

lemma py_escape_plain:
  assumes "32 \<le> (of_char c :: nat)" and "(of_char c :: nat) < 127"
    and "c \<noteq> CHR 0x27" and "c \<noteq> CHR 0x5C"
  shows "py_escape (CHR 0x27) c = [c]"
proof -
  have t: "c \<noteq> CHR 0x09"
  proof
    assume "c = CHR 0x09"
    then have "(of_char c :: nat) = 9" by simp
    with assms(1) show False by simp
  qed
  have n: "c \<noteq> CHR 0x0A"
  proof
    assume "c = CHR 0x0A"
    then have "(of_char c :: nat) = 10" by simp
    with assms(1) show False by simp
  qed
  have r: "c \<noteq> CHR 0x0D"
  proof
    assume "c = CHR 0x0D"
    then have "(of_char c :: nat) = 13" by simp
    with assms(1) show False by simp
  qed
  have d: "c \<noteq> CHR 0x7F"
  proof
    assume "c = CHR 0x7F"
    then have "(of_char c :: nat) = 127" by simp
    with assms(2) show False by simp
  qed
  have l: "\<not> (of_char c :: nat) < 32" using assms(1) by simp
  show ?thesis
    unfolding py_escape_def
    by (simp only: assms(3,4) t n r d l if_False simp_thms)
qed

lemma concat_singletons:
  "\<forall>c \<in> set s. f c = [c] \<Longrightarrow> concat (map f s) = s"
  by (induction s) auto

lemma py_repr_plain: "plain s \<Longrightarrow> py_repr s = quoted s"
proof -
  assume p: "plain s"
  then have "CHR 0x27 \<notin> set s" unfolding plain_def by blast
  then have q: "py_quote s = CHR 0x27" by (simp add: py_quote_def)
  have "\<forall>c \<in> set s. py_escape (CHR 0x27) c = [c]"
  proof
    fix c assume "c \<in> set s"
    with p show "py_escape (CHR 0x27) c = [c]"
      unfolding plain_def by (intro py_escape_plain) blast+
  qed
  then have "concat (map (py_escape (CHR 0x27)) s) = s" by (rule concat_singletons)
  then show ?thesis by (simp add: py_repr_def q quoted_def)
qed

lemma str_list_names_dep:
  assumes "d \<in> set deps"
  shows "\<exists>pre post. py_str_list deps = pre @ py_repr d @ post"
proof -
  from assms have "py_repr d \<in> set (map py_repr deps)" by simp
  then obtain pre post where "join '', '' (map py_repr deps) = pre @ py_repr d @ post"
    using join_contains by blast
  then have "py_str_list deps = (''['' @ pre) @ py_repr d @ (post @ '']'')"
    by (simp add: py_str_list_def)
  then show ?thesis by blast
qed

lemma message_names_kind_and_deps:
  assumes "(k, deps) \<in> set dbk"
  shows "(\<exists>pre post. multiple_kinds_message dbk = pre @ py_repr k @ post) \<and>
         (\<forall>d \<in> set deps. \<exists>pre post. multiple_kinds_message dbk = pre @ py_repr d @ post)"
proof -
  from message_names_group [OF assms] obtain pre post where
    m: "multiple_kinds_message dbk = pre @ (py_repr k @ '': '' @ py_str_list deps) @ post"
    by blast
  then have "multiple_kinds_message dbk = pre @ py_repr k @ ('': '' @ py_str_list deps @ post)"
    by simp
  then have a: "\<exists>pre post. multiple_kinds_message dbk = pre @ py_repr k @ post" by blast
  have "\<exists>pre' post'. multiple_kinds_message dbk = pre' @ py_repr d @ post'"
    if "d \<in> set deps" for d
  proof -
    from str_list_names_dep [OF that] obtain a b where "py_str_list deps = a @ py_repr d @ b"
      by blast
    with m have "multiple_kinds_message dbk =
        (pre @ py_repr k @ '': '' @ a) @ py_repr d @ (b @ post)" by simp
    then show ?thesis by blast
  qed
  with a show ?thesis by blast
qed

text \<open>
  Claim C8, as amended. For every merge plugin whose dependencies, with ASCII names,
  classify (every kind has a dependency with a time field) into more than one kind,
  \<open>infer_dtype\<close> fails with a \<open>ValueError\<close> whose message ends with the printed
  \<open>deps_by_kind\<close>: every kind group stands in it as the \<open>repr\<close> of the kind, a colon
  and the printed list of its dependencies, so that every plain kind and every plain
  dependency is to be read in the message between quotes. The error is raised when
  \<open>infer_dtype\<close> is called; \<open>infer_dtype\<close> is given the plugin only and no iterator.
\<close>

theorem merge_infer_dtype_rejects_multiple_kinds:
  assumes "declared p ds" and "\<forall>j \<in> set (kinds p ds). \<not> lacks_time p ds j"
    and "length (kinds p ds) > 1"
    and "\<forall>s \<in> set (kinds p ds) \<union> set ds. ascii s"
  shows "\<exists>dbk. dependencies_by_kind p True = Inr dbk \<and> map fst dbk = kinds p ds \<and>
           MergePlugin_infer_dtype unpack_dtype p = Inl (ValueError (multiple_kinds_message dbk)) \<and>
           (\<forall>(k, deps) \<in> set dbk. \<exists>pre post.
              multiple_kinds_message dbk = pre @ (py_repr k @ '': '' @ py_str_list deps) @ post) \<and>
           (\<forall>(k, deps) \<in> set dbk.
              (plain k \<longrightarrow> (\<exists>pre post. multiple_kinds_message dbk = pre @ quoted k @ post)) \<and>
              (\<forall>d \<in> set deps. plain d \<longrightarrow>
                 (\<exists>pre post. multiple_kinds_message dbk = pre @ quoted d @ post)))"
proof -
  have g: "dependencies_by_kind p True = Inr (groups p ds)"
    by (rule dependencies_by_kind_groups [OF assms(1,2)])
  have l: "length (groups p ds) = length (kinds p ds)" by (simp add: groups_def)
  have m: "map fst (groups p ds) = kinds p ds" by (simp add: groups_def comp_def)
  have e: "MergePlugin_infer_dtype unpack_dtype p =
          Inl (ValueError (multiple_kinds_message (groups p ds)))"
    using assms(3) by (simp add: MergePlugin_infer_dtype_def g l)
  have n1: "\<forall>(k, deps) \<in> set (groups p ds). \<exists>pre post.
      multiple_kinds_message (groups p ds) = pre @ (py_repr k @ '': '' @ py_str_list deps) @ post"
    using message_names_group by blast
  have n2: "\<forall>(k, deps) \<in> set (groups p ds).
      (plain k \<longrightarrow> (\<exists>pre post. multiple_kinds_message (groups p ds) = pre @ quoted k @ post)) \<and>
      (\<forall>d \<in> set deps. plain d \<longrightarrow>
         (\<exists>pre post. multiple_kinds_message (groups p ds) = pre @ quoted d @ post))"
  proof (intro ballI, clarify)
    fix k deps assume kd: "(k, deps) \<in> set (groups p ds)"
    note n = message_names_kind_and_deps [OF kd]
    have named: "\<exists>pre post. multiple_kinds_message (groups p ds) = pre @ quoted s @ post"
      if "\<exists>pre post. multiple_kinds_message (groups p ds) = pre @ py_repr s @ post"
        and "plain s" for s
    proof -
      from that(1) obtain pre post where
        "multiple_kinds_message (groups p ds) = pre @ py_repr s @ post" by blast
      then have "multiple_kinds_message (groups p ds) = pre @ quoted s @ post"
        by (simp only: py_repr_plain [OF that(2)])
      then show ?thesis by blast
    qed
    from n have nk: "\<exists>pre post. multiple_kinds_message (groups p ds) = pre @ py_repr k @ post"
      and nd: "\<forall>d \<in> set deps.
                 \<exists>pre post. multiple_kinds_message (groups p ds) = pre @ py_repr d @ post"
      by blast+
    show "(plain k \<longrightarrow>
        (\<exists>pre post. multiple_kinds_message (groups p ds) = pre @ quoted k @ post)) \<and>
      (\<forall>d \<in> set deps. plain d \<longrightarrow>
        (\<exists>pre post. multiple_kinds_message (groups p ds) = pre @ quoted d @ post))"
    proof (intro conjI impI ballI)
      assume "plain k"
      with nk show "\<exists>pre post. multiple_kinds_message (groups p ds) = pre @ quoted k @ post"
        by (rule named)
    next
      fix d assume "d \<in> set deps" and pd: "plain d"
      with nd have "\<exists>pre post. multiple_kinds_message (groups p ds) = pre @ py_repr d @ post"
        by blast
      then show "\<exists>pre post. multiple_kinds_message (groups p ds) = pre @ quoted d @ post"
        using pd by (rule named)
    qed
  qed
  show ?thesis
    by (rule exI [of _ "groups p ds"]) (intro conjI g m e n1 n2)
qed

text \<open>
  An instance: \<open>a\<close> of kind \<open>events\<close> and \<open>b\<close> of kind \<open>peaks\<close>, with the message in
  full.
\<close>

theorem merge_infer_dtype_rejects_multiple_kinds_witness:
  "declared (example_plugin (Some [''a'', ''b''])
      [(''a'', ''events''), (''b'', ''peaks'')]
      [(''a'', [(''time'', ''i8'')]), (''b'', [(''time'', ''i8'')])]) [''a'', ''b''] \<and>
   length (kinds (example_plugin (Some [''a'', ''b''])
      [(''a'', ''events''), (''b'', ''peaks'')]
      [(''a'', [(''time'', ''i8'')]), (''b'', [(''time'', ''i8'')])]) [''a'', ''b'']) > 1 \<and>
   MergePlugin_infer_dtype (\<lambda>dt. dt) (example_plugin (Some [''a'', ''b''])
      [(''a'', ''events''), (''b'', ''peaks'')]
      [(''a'', [(''time'', ''i8'')]), (''b'', [(''time'', ''i8'')])]) =
     Inl (ValueError (multiple_kinds_message [(''events'', [''a'']), (''peaks'', [''b''])])) \<and>
   multiple_kinds_message [(''events'', [''a'']), (''peaks'', [''b''])] =
     ''MergePlugins can only merge data of the same kind, but got multiple kinds: {'' @
     quoted ''events'' @ '': ['' @ quoted ''a'' @ ''], '' @
     quoted ''peaks'' @ '': ['' @ quoted ''b'' @ '']}''"
proof -
  let ?p = "example_plugin (Some [''a'', ''b''])
      [(''a'', ''events''), (''b'', ''peaks'')]
      [(''a'', [(''time'', ''i8'')]), (''b'', [(''time'', ''i8'')])]"
  let ?ds = "[''a'', ''b'']"
  have d: "declared ?p ?ds" by (simp add: example_defs)
  have a: "\<forall>j \<in> set (kinds ?p ?ds). \<not> lacks_time ?p ?ds j" by (simp add: example_defs)
  have l: "length (kinds ?p ?ds) > 1" by (simp add: example_defs)
  have asc: "\<forall>s \<in> set (kinds ?p ?ds) \<union> set ?ds. ascii s"
    by (simp add: example_defs ascii_def)
  have r: "dependencies_by_kind ?p True = Inr [(''events'', [''a'']), (''peaks'', [''b''])]"
    by (simp add: example_defs dependencies_by_kind_def setdefault_def bucket_def)
  have pl: "plain ''events''" "plain ''peaks''" "plain ''a''" "plain ''b''"
    by (simp_all add: plain_def)
  have msg: "multiple_kinds_message [(''events'', [''a'']), (''peaks'', [''b''])] =
     ''MergePlugins can only merge data of the same kind, but got multiple kinds: {'' @
     quoted ''events'' @ '': ['' @ quoted ''a'' @ ''], '' @
     quoted ''peaks'' @ '': ['' @ quoted ''b'' @ '']}''"
    by (simp add: multiple_kinds_message_def py_str_dict_def py_str_list_def
        py_repr_plain [OF pl(1)] py_repr_plain [OF pl(2)] py_repr_plain [OF pl(3)]
        py_repr_plain [OF pl(4)])
  from merge_infer_dtype_rejects_multiple_kinds [OF d a l asc, of "\<lambda>dt. dt"] r
  have "MergePlugin_infer_dtype (\<lambda>dt. dt) ?p =
     Inl (ValueError (multiple_kinds_message [(''events'', [''a'']), (''peaks'', [''b''])]))"
    by auto
  with d l msg show ?thesis by simp
qed

text \<open>
  Claim C8 as it is written fails in its last part: nothing in \<open>iter\<close> asks for one
  kind. For the merge plugin of the instance above \<open>infer_dtype\<close> raises, and \<open>iter\<close>
  of the same plugin, with \<open>MergePlugin.compute\<close>, yields the merged batch and ends
  without an error: chunks flow through the output stream and no error was raised
  before.
\<close>

lemmas loop_example_defs = iter_setup_def dependencies_by_kind_def setdefault_def bucket_def
  flow_control_def sync_kinds_def example_array_ca_def names_def example_plugin_def

theorem merge_iter_streams_multiple_kinds_counterexample:
  "MergePlugin_infer_dtype (\<lambda>dt. dt) (example_plugin (Some [''a'', ''b''])
      [(''a'', ''events''), (''b'', ''peaks'')]
      [(''a'', [(''time'', ''i8'')]), (''b'', [(''time'', ''i8'')])]) =
     Inl (ValueError (multiple_kinds_message [(''events'', [''a'']), (''peaks'', [''b''])])) \<and>
   map_option fst
     (iter example_array_ca (example_plugin (Some [''a'', ''b''])
        [(''a'', ''events''), (''b'', ''peaks'')]
        [(''a'', [(''time'', ''i8'')]), (''b'', [(''time'', ''i8'')])])
        (MergePlugin_compute example_lib)
        [''a'' \<mapsto> [[(0, 100)]], ''b'' \<mapsto> [[(10, 20)]]] None
        (None :: ((nat \<times> nat) list, (nat \<times> nat) list, unit) executor option)) =
     Some [Result [(0, 100)]] \<and>
   map_option (fst \<circ> snd)
     (iter example_array_ca (example_plugin (Some [''a'', ''b''])
        [(''a'', ''events''), (''b'', ''peaks'')]
        [(''a'', [(''time'', ''i8'')]), (''b'', [(''time'', ''i8'')])])
        (MergePlugin_compute example_lib)
        [''a'' \<mapsto> [[(0, 100)]], ''b'' \<mapsto> [[(10, 20)]]] None
        (None :: ((nat \<times> nat) list, (nat \<times> nat) list, unit) executor option)) =
     Some None"
proof -
  let ?p = "example_plugin (Some [''a'', ''b''])
      [(''a'', ''events''), (''b'', ''peaks'')]
      [(''a'', [(''time'', ''i8'')]), (''b'', [(''time'', ''i8'')])]"
  let ?ds = "[''a'', ''b'']"
  let ?iters = "[''a'' \<mapsto> [[(0, 100)]], ''b'' \<mapsto> [[(10, 20::nat)]]] :: (nat \<times> nat) list iters"
  let ?its = "[''a'' \<mapsto> [[(0, 100)]], ''b'' \<mapsto> [[(10, 20)]],
               ''a'' \<mapsto> [[(0, 100)]], ''b'' \<mapsto> [[(10, 20::nat)]]] :: (nat \<times> nat) list iters"
  let ?ex = "None :: ((nat \<times> nat) list, (nat \<times> nat) list, unit) executor option"
  let ?c = "MergePlugin_compute example_lib"
  have e: "MergePlugin_infer_dtype (\<lambda>dt. dt) ?p =
     Inl (ValueError (multiple_kinds_message [(''events'', [''a'']), (''peaks'', [''b''])]))"
    by (simp add: MergePlugin_infer_dtype_def loop_example_defs)
  have s: "iter_setup example_array_ca ?p ?iters None = Inr ?its"
    by (simp add: loop_example_defs)
  have d: "depends_on ?p = Some ?ds" by (simp add: example_plugin_def)
  have n: "?ds \<noteq> []" and di: "distinct ?ds" and dom: "set ?ds \<subseteq> dom ?its" by simp_all
  have c: "multiprocess ?p \<and> ?ex \<noteq> None \<or>
       (\<forall>i < n_batches ?ds ?its. \<exists>r. ?c (batch ?ds ?its i) = Inr r)"
    by (simp add: MergePlugin_compute_def)
  have m: "n_batches ?ds ?its = 1"
    by (simp add: n_batches_def chunks_of_def)
  have y: "map (\<lambda>i. yield_of ?p ?c ?ex (batch ?ds ?its i)) [0..<1] = [Result [(0, 100)]]"
    by (simp add: yield_of_def batch_def chunks_of_def MergePlugin_compute_def example_lib_def
        example_plugin_def)
  from iter_loop_batches [OF d n di dom c, of "[]"]
  obtain its' where "iter_loop ?p ?c ?ex ?its [] =
      Some ([] @ map (\<lambda>i. yield_of ?p ?c ?ex (batch ?ds ?its i)) [0..<n_batches ?ds ?its],
            None, its')"
    by blast
  then have "iter_loop ?p ?c ?ex ?its [] = Some ([Result [(0, 100)]], None, its')"
    by (simp only: m y append_Nil)
  then have "iter example_array_ca ?p ?c ?iters None ?ex = Some ([Result [(0, 100)]], None, its')"
    by (simp add: iter_def s)
  with e show ?thesis by simp
qed

lemma foldl_append_concat: "foldl (@) acc xss = acc @ concat xss"
  by (induction xss arbitrary: acc) auto

lemma lookup_dtypes_declared:
  "\<forall>d \<in> set ds. dependency_dtypes p d \<noteq> None \<Longrightarrow>
   lookup_dtypes p ds = Inr (map (\<lambda>d. the (dependency_dtypes p d)) ds)"
  by (induction ds) auto

text \<open>
  Claim C9, as amended. For every merge plugin whose dependencies are of one kind,
  at least one of them with a time field, the inferred dtype is the concatenation, in
  the order of \<open>depends_on\<close>, of the unpacked field lists of the dependencies' dtypes;
  so dependencies with the fields \<open>time\<close>, \<open>a\<close>, \<open>b\<close> and then \<open>c\<close> give the order
  \<open>time\<close>, \<open>a\<close>, \<open>b\<close>, \<open>c\<close>.
\<close>

theorem merge_infer_dtype_concatenates_in_declared_order:
  assumes "declared p ds" and "\<forall>j \<in> set (kinds p ds). \<not> lacks_time p ds j"
    and "length (kinds p ds) = 1"
  shows "MergePlugin_infer_dtype unpack_dtype p =
           Inr (concat (map (\<lambda>d. unpack_dtype (the (dependency_dtypes p d))) ds))"
proof -
  have g: "dependencies_by_kind p True = Inr (groups p ds)"
    by (rule dependencies_by_kind_groups [OF assms(1,2)])
  have l: "length (groups p ds) = 1" using assms(3) by (simp add: groups_def)
  from assms(1) have d: "depends_on p = Some ds"
    and a: "\<forall>d \<in> set ds. dependency_dtypes p d \<noteq> None" by (simp_all add: declared_def)
  show ?thesis
    by (simp add: MergePlugin_infer_dtype_def g l d lookup_dtypes_declared [OF a]
        foldl_append_concat comp_def)
qed

text \<open>
  An instance: the fields \<open>time\<close>, \<open>a\<close>, \<open>b\<close> of the first dependency, then the field
  \<open>c\<close> of the second.
\<close>

theorem merge_infer_dtype_concatenates_in_declared_order_witness:
  "declared (example_plugin (Some [''x'', ''y''])
      [(''x'', ''peaks''), (''y'', ''peaks'')]
      [(''x'', [(''time'', ''i8''), (''a'', ''f4''), (''b'', ''f4'')]), (''y'', [(''c'', ''f4'')])])
      [''x'', ''y''] \<and>
   MergePlugin_infer_dtype (\<lambda>dt. dt) (example_plugin (Some [''x'', ''y''])
      [(''x'', ''peaks''), (''y'', ''peaks'')]
      [(''x'', [(''time'', ''i8''), (''a'', ''f4''), (''b'', ''f4'')]), (''y'', [(''c'', ''f4'')])]) =
     Inr [(''time'', ''i8''), (''a'', ''f4''), (''b'', ''f4''), (''c'', ''f4'')]"
proof -
  let ?p = "example_plugin (Some [''x'', ''y''])
      [(''x'', ''peaks''), (''y'', ''peaks'')]
      [(''x'', [(''time'', ''i8''), (''a'', ''f4''), (''b'', ''f4'')]), (''y'', [(''c'', ''f4'')])]"
  let ?ds = "[''x'', ''y'']"
  have d: "declared ?p ?ds" by (simp add: example_defs)
  have a: "\<forall>j \<in> set (kinds ?p ?ds). \<not> lacks_time ?p ?ds j" by (simp add: example_defs)
  have l: "length (kinds ?p ?ds) = 1" by (simp add: example_defs)
  show ?thesis
    using merge_infer_dtype_concatenates_in_declared_order [OF d a l, of "\<lambda>dt. dt"] d
    by (simp add: example_plugin_def)
qed

text \<open>
  Claim C9 as it is written fails on its own example: with the fields \<open>a\<close>, \<open>b\<close> and
  then \<open>c\<close>, and no time field among them, \<open>infer_dtype\<close> classifies the dependencies
  with \<open>require_time\<close> true and raises before it concatenates anything.
\<close>

theorem merge_infer_dtype_needs_time_field_counterexample:
  "MergePlugin_infer_dtype (\<lambda>dt. dt) (example_plugin (Some [''x'', ''y''])
      [(''x'', ''peaks''), (''y'', ''peaks'')]
      [(''x'', [(''a'', ''f4''), (''b'', ''f4'')]), (''y'', [(''c'', ''f4'')])]) =
     Inl (ValueError ''No dependency of data kind peaks has time information!'') \<and>
   MergePlugin_infer_dtype (\<lambda>dt. dt) (example_plugin (Some [''x'', ''y''])
      [(''x'', ''peaks''), (''y'', ''peaks'')]
      [(''x'', [(''a'', ''f4''), (''b'', ''f4'')]), (''y'', [(''c'', ''f4'')])]) \<noteq>
     Inr [(''a'', ''f4''), (''b'', ''f4''), (''c'', ''f4'')]"
  by (simp add: MergePlugin_infer_dtype_def dependencies_by_kind_def setdefault_def bucket_def
      names_def example_plugin_def no_time_message_def)

end
